theory Spec2Isabelle
  imports Main "HOL-Library.Word" "HOL-Library.Sublist" "HOL-Library.AList"
begin

unbundle bit_operations_syntax

section \<open>Signature.ts: the bridge between EOSIO signatures and \<open>elliptic\<close> signatures\<close>

text \<open>
  A \<open>Uint8Array\<close> is a list of 8-bit words; storing a JavaScript number into it
  keeps the number modulo 256, which is what \<open>of_int\<close> into \<open>8 word\<close> does.
  The numbers \<open>r\<close> and \<open>s\<close> of a signature are \<open>BN\<close> big numbers (naturals),
  the recovery parameter is a JavaScript integer.
\<close>

type_synonym bytes = "8 word list"

datatype KeyType = k1 | r1 | wa

record EllipticSignature =
  r :: nat
  s :: nat
  recoveryParam :: int

record Key =
  type :: KeyType
  data :: bytes

text \<open>
  \<open>BN.toArray()\<close> as \<open>fromElliptic\<close> calls it, with no endianness and no length:
  the big-endian bytes of the number in the least number of bytes, one byte for zero
  (bn.js computes the length as \<open>length || Math.max(1, byteLength)\<close>).
\<close>

function toArray :: "nat \<Rightarrow> bytes" where
  "toArray n = (if n < 256 then [of_nat n] else toArray (n div 256) @ [of_nat (n mod 256)])"
  by pat_completeness auto
termination
  by (relation "measure id") auto

declare toArray.simps [simp del]

text \<open>\<open>new BN(bytes)\<close>: the number a byte array denotes, big-endian; zero for no bytes.\<close>

definition BN :: "bytes \<Rightarrow> nat" where
  "BN bs = foldl (\<lambda>acc b. acc * 256 + unat b) 0 bs"

text \<open>\<open>Uint8Array.prototype.slice(start, end)\<close> for \<open>0 \<le> start \<le> end\<close>: clipped to the array.\<close>

definition slice :: "'a list \<Rightarrow> nat \<Rightarrow> nat \<Rightarrow> 'a list" where
  "slice xs start end = take (end - start) (drop start xs)"

text \<open>The header number \<open>fromElliptic\<close> computes before it is stored as a byte.\<close>

definition eosioRecoveryParam :: "KeyType \<Rightarrow> int \<Rightarrow> int" where
  "eosioRecoveryParam keyType rp =
     (case keyType of
        k1 \<Rightarrow> (if rp \<le> 3 then rp + 27 + 4 else rp + 27)
      | r1 \<Rightarrow> rp
      | wa \<Rightarrow> rp)"

definition fromElliptic :: "EllipticSignature \<Rightarrow> KeyType \<Rightarrow> Key" where
  "fromElliptic ellipticSig keyType =
     \<lparr> type = keyType,
       data = of_int (eosioRecoveryParam keyType (recoveryParam ellipticSig))
                # toArray (r ellipticSig) @ toArray (s ellipticSig) \<rparr>"

text \<open>
  \<open>this.signature.data[0]\<close>: \<open>undefined\<close> (\<open>None\<close>) on an empty array. Arithmetic on
  \<open>undefined\<close> gives \<open>NaN\<close>, which no comparison holds for and which \<open>&\<close> reads as 0;
  \<open>None\<close> stands for both in the bit field.
\<close>

definition header :: "bytes \<Rightarrow> int option" where
  "header bs = (case bs of [] \<Rightarrow> None | b # _ \<Rightarrow> Some (uint b))"

definition ellipticRecoveryBitField :: "KeyType \<Rightarrow> int option \<Rightarrow> int option" where
  "ellipticRecoveryBitField keyType h =
     (case keyType of
        k1 \<Rightarrow> (case h of
                None \<Rightarrow> None
              | Some b \<Rightarrow> (if b - 27 > 3 then Some (b - 27 - 4) else Some (b - 27)))
      | r1 \<Rightarrow> h
      | wa \<Rightarrow> h)"

definition and3 :: "int option \<Rightarrow> int" where
  "and3 v = (case v of None \<Rightarrow> 0 | Some x \<Rightarrow> x AND 3)"

definition toElliptic :: "Key \<Rightarrow> EllipticSignature" where
  "toElliptic sig =
     \<lparr> r = BN (slice (data sig) 1 (32 + 1)),
       s = BN (slice (data sig) (32 + 1) (32 + 32 + 1)),
       recoveryParam = and3 (ellipticRecoveryBitField (type sig) (header (data sig))) \<rparr>"

section \<open>JavaScript values, objects and errors\<close>

text \<open>
  The values the Api reads out of the objects it is handed. Numbers are integers here
  (block numbers, seconds, the TAPoS fields); arrays and nested objects are carried
  along without being looked into.
\<close>

datatype jsval =
    JUndefined
  | JNull
  | JBool bool
  | JNum int
  | JStr string
  | JArr "jsval list"
  | JObj "(string \<times> jsval) list"

text \<open>\<open>!!v\<close>: what an \<open>if\<close>, \<open>!\<close>, \<open>&&\<close> or \<open>||\<close> sees of a value.\<close>

fun truthy :: "jsval \<Rightarrow> bool" where
  "truthy JUndefined = False"
| "truthy JNull = False"
| "truthy (JBool b) = b"
| "truthy (JNum n) = (n \<noteq> 0)"
| "truthy (JStr str) = (str \<noteq> [])"
| "truthy (JArr xs) = True"
| "truthy (JObj fs) = True"

text \<open>\<open>typeof v === 'number'\<close>\<close>

fun is_number :: "jsval \<Rightarrow> bool" where
  "is_number (JNum n) = True"
| "is_number v = False"

text \<open>
  An object is the map from the names of its own properties to their values; reading a
  property it does not have gives \<open>undefined\<close>. \<open>__assign(__assign({}, a), b)\<close>, the
  compiled \<open>{...a, ...b}\<close>, is \<open>a ++ b\<close>: the properties of \<open>b\<close> win.
\<close>

type_synonym jsobj = "string \<rightharpoonup> jsval"

definition js_get :: "jsobj \<Rightarrow> string \<Rightarrow> jsval" where
  "js_get obj p = (case obj p of None \<Rightarrow> JUndefined | Some v \<Rightarrow> v)"

text \<open>What is thrown: an \<open>Error\<close> or a \<open>TypeError\<close>, with its message.\<close>

datatype error = Error string | TypeError string

text \<open>\<open>e.message = prefix + e.message\<close>, as the handler in \<open>getCachedAbi\<close> does it.\<close>

fun prefix_message :: "string \<Rightarrow> error \<Rightarrow> error" where
  "prefix_message p (Error m) = Error (p @ m)"
| "prefix_message p (TypeError m) = TypeError (p @ m)"

section \<open>The data of the Api\<close>

text \<open>
  An action, before serialization (structured \<open>data\<close>) and after it (\<open>data\<close> a hex
  string). The field \<open>data\<close> is \<open>action_data\<close> here, \<open>data\<close> being a field of \<open>Key\<close>.
\<close>

record action =
  account :: string
  name :: string
  authorization :: jsval
  action_data :: jsval

text \<open>
  The transaction object handed to \<open>transact\<close>. Its two action lists and its
  context-free data have the shapes of the \<open>Transaction\<close> interface, each present or
  not (\<open>None\<close>); \<open>props\<close> holds all its other own properties: \<open>expiration\<close>,
  \<open>ref_block_num\<close>, \<open>ref_block_prefix\<close>, the usage limits, whatever else the
  caller put there.
\<close>

record transaction =
  props :: jsobj
  context_free_actions :: "action list option"
  actions :: "action list option"
  context_free_data :: "bytes list option"

text \<open>\<open>TransactConfig\<close> of eosjs-api-interfaces.ts; every member is optional.\<close>

record TransactConfig =
  broadcast :: "bool option"
  sign :: "bool option"
  requiredKeys :: "string list option"
  compression :: "bool option"
  blocksBehind :: "int option"
  useLastIrreversible :: "bool option"
  expireSeconds :: "int option"

text \<open>The members of the \<open>get_info\<close> answer that the Api reads.\<close>

record GetInfoResult =
  chain_id :: string
  head_block_num :: int
  last_irreversible_block_num :: int

record BinaryAbi =
  accountName :: string
  abi :: bytes

text \<open>
  A decoded ABI; the Api reads its \<open>actions\<close>, a list of pairs of a name and a type.
\<close>

record Abi =
  abi_version :: string
  abi_actions :: "(string \<times> string) list"

text \<open>\<open>CachedAbi\<close>: \<open>{rawAbi, abi}\<close>, the member \<open>abi\<close> being \<open>structuredAbi\<close> here.\<close>

record CachedAbi =
  rawAbi :: bytes
  structuredAbi :: Abi

text \<open>
  What \<open>getContract\<close> returns, \<open>{types, actions}\<close>. The type registry and the type
  descriptors belong to eosjs-serialize and are opaque here (the type variables); the
  \<open>Map\<close> of the actions is an association list.
\<close>

record ('types, 'ty) Contract =
  types :: 'types
  contract_actions :: "(string \<times> 'ty) list"

record AuthorityProviderArgs =
  transaction :: transaction
  availableKeys :: "string list"

record SignatureProviderArgs =
  sp_chainId :: "string option"
  sp_requiredKeys :: "string list"
  sp_serializedTransaction :: bytes
  sp_serializedContextFreeData :: "bytes option"
  sp_abis :: "BinaryAbi list"

record PushTransactionArgs =
  signatures :: "string list"
  push_compression :: "nat option"
  serializedTransaction :: bytes
  serializedContextFreeData :: "bytes option"

section \<open>The collaborators\<close>

text \<open>
  Every call the Api makes to the node, to the ABI provider, to the authority provider
  and to the signature provider is logged, in the order the calls are issued. The block
  number of a block request is \<open>None\<close> when the Api asks with \<open>NaN\<close>.
\<close>

datatype event =
    GetInfo
  | GetBlock "int option"
  | GetBlockHeaderState "int option"
  | PushTransaction PushTransactionArgs
  | GetRawAbi string
  | GetRequiredKeys AuthorityProviderArgs
  | GetAvailableKeys
  | Sign SignatureProviderArgs

text \<open>
  The world around the Api. The first eight members are the remote parties: each answers
  a call with a value or with a failure, and may answer the same call differently as
  time goes by, so an answer is a function of the log at the time of the call. The
  others are the functions of eosjs-serialize and pako that the Api calls, whose code
  lies outside eosjs-api.js: reading the version string at the head of a buffer,
  \<open>supportedAbiVersion\<close>, the \<open>abi_def\<close> deserializer, \<open>getTypesFromAbi\<close> on the
  initial types, \<open>getType\<close>, \<open>serializeAction\<close>, the \<open>transaction\<close> serializer,
  \<open>transactionHeader\<close>, the two methods of \<open>SerialBuffer\<close> that
  \<open>serializeContextFreeData\<close> calls, and \<open>deflate\<close> at level 9. A \<open>SerialBuffer\<close>
  is the list of the bytes written to it so far: \<open>pushVaruint32\<close> gives the bytes it
  appends for a number, \<open>pushBytes\<close> gives, for what the buffer holds and a byte array,
  what the buffer holds afterwards.
\<close>

record ('types, 'ty) env =
  rpc_get_info :: "event list \<Rightarrow> error + GetInfoResult"
  rpc_get_block :: "event list \<Rightarrow> int option \<Rightarrow> error + jsobj"
  rpc_get_block_header_state :: "event list \<Rightarrow> int option \<Rightarrow> error + jsobj"
  rpc_push_transaction :: "event list \<Rightarrow> PushTransactionArgs \<Rightarrow> error + jsval"
  abiProvider_getRawAbi :: "event list \<Rightarrow> string \<Rightarrow> error + BinaryAbi"
  authorityProvider_getRequiredKeys :: "event list \<Rightarrow> AuthorityProviderArgs \<Rightarrow> error + string list"
  signatureProvider_getAvailableKeys :: "event list \<Rightarrow> error + string list"
  signatureProvider_sign :: "event list \<Rightarrow> SignatureProviderArgs \<Rightarrow> error + PushTransactionArgs"
  buffer_getString :: "bytes \<Rightarrow> error + string"
  ser_supportedAbiVersion :: "string \<Rightarrow> bool"
  abi_def_deserialize :: "bytes \<Rightarrow> error + Abi"
  ser_getTypesFromAbi :: "Abi \<Rightarrow> error + 'types"
  ser_getType :: "'types \<Rightarrow> string \<Rightarrow> error + 'ty"
  ser_serializeAction :: "('types, 'ty) Contract \<Rightarrow> action \<Rightarrow> error + action"
  transaction_serialize :: "transaction \<Rightarrow> error + bytes"
  ser_transactionHeader :: "jsobj \<Rightarrow> int \<Rightarrow> error + jsobj"
  pushVaruint32 :: "nat \<Rightarrow> bytes"
  pushBytes :: "bytes \<Rightarrow> bytes \<Rightarrow> bytes"
  pako_deflate :: "bytes \<Rightarrow> bytes"

text \<open>
  The state of a run: the members of the Api object that its methods read and write
  (\<open>this.chainId\<close>, \<open>this.requiredKeys\<close> as \<open>api_requiredKeys\<close>, the two caches) and
  the log of the calls issued so far.
\<close>

record ('types, 'ty) Api =
  chainId :: "string option"
  api_requiredKeys :: "string list option"
  cachedAbis :: "string \<rightharpoonup> CachedAbi"
  contracts :: "string \<rightharpoonup> ('types, 'ty) Contract"
  trace :: "event list"

section \<open>Asynchronous functions\<close>

text \<open>
  An \<open>async\<close> function, run to its end: from the state before to the value it resolves
  with or the error it rejects with, and the state after. A rejection keeps what was
  written and logged before it.
\<close>

type_synonym ('a, 's) async = "'s \<Rightarrow> (error + 'a) \<times> 's"

definition resolve :: "'a \<Rightarrow> ('a, 's) async" where
  "resolve x st = (Inr x, st)"

definition reject :: "error \<Rightarrow> ('a, 's) async" where
  "reject e st = (Inl e, st)"

text \<open>A synchronous call that returns or throws, inside an \<open>async\<close> function.\<close>

definition settle :: "error + 'a \<Rightarrow> ('a, 's) async" where
  "settle res st = (res, st)"

text \<open>\<open>x = await m; k x\<close>: a rejection of \<open>m\<close> is the rejection of the whole.\<close>

definition await :: "('a, 's) async \<Rightarrow> ('a \<Rightarrow> ('b, 's) async) \<Rightarrow> ('b, 's) async" where
  "await m k st = (case m st of (Inl e, st') \<Rightarrow> (Inl e, st') | (Inr x, st') \<Rightarrow> k x st')"

text \<open>A call to a remote party: it is answered from the log so far, and logged.\<close>

definition request ::
  "event \<Rightarrow> (event list \<Rightarrow> error + 'a) \<Rightarrow> ('a, ('types, 'ty) Api) async" where
  "request ev answer st = (answer (trace st), st\<lparr>trace := trace st @ [ev]\<rparr>)"

text \<open>
  \<open>Promise.all(xs.map(f))\<close>. Each callback runs up to its first pending call while
  \<open>map\<close> is still running, so every callback reads the caches as they were at the
  start (\<open>base\<close>) and the calls are issued in the order of the list. The callbacks here
  issue no further call once the first is answered; they complete in the order of the
  list, each writing what it would have written (\<open>replay\<close>: the entries it changed),
  and of several rejections the first of the list is the one reported.
\<close>

definition replay :: "('k \<rightharpoonup> 'v) \<Rightarrow> ('k \<rightharpoonup> 'v) \<Rightarrow> ('k \<rightharpoonup> 'v) \<Rightarrow> ('k \<rightharpoonup> 'v)" where
  "replay base written cur = (\<lambda>k. if written k = base k then cur k else written k)"

fun promise_all_map ::
  "('x \<Rightarrow> ('a, ('types, 'ty) Api) async) \<Rightarrow> ('types, 'ty) Api \<Rightarrow> 'x list
     \<Rightarrow> ('types, 'ty) Api \<Rightarrow> (error + 'a) list \<times> ('types, 'ty) Api" where
  "promise_all_map f base [] st = ([], st)"
| "promise_all_map f base (x # xs) st =
     (case f x (base\<lparr>trace := trace st\<rparr>) of
        (res, sx) \<Rightarrow>
          (case promise_all_map f base xs
                  (st\<lparr>trace := trace sx,
                      cachedAbis := replay (cachedAbis base) (cachedAbis sx) (cachedAbis st),
                      contracts := replay (contracts base) (contracts sx) (contracts st)\<rparr>) of
             (ress, st') \<Rightarrow> (res # ress, st')))"

fun all_fulfilled :: "(error + 'a) list \<Rightarrow> error + 'a list" where
  "all_fulfilled [] = Inr []"
| "all_fulfilled (Inl e # rs) = Inl e"
| "all_fulfilled (Inr x # rs) = (case all_fulfilled rs of Inl e \<Rightarrow> Inl e | Inr xs \<Rightarrow> Inr (x # xs))"

definition promise_all ::
  "('x \<Rightarrow> ('a, ('types, 'ty) Api) async) \<Rightarrow> 'x list \<Rightarrow> ('a list, ('types, 'ty) Api) async" where
  "promise_all f xs st =
     (case promise_all_map f st xs st of (ress, st') \<Rightarrow> (all_fulfilled ress, st'))"

section \<open>eosjs-api.js: the methods of the Api\<close>

text \<open>
  Parameters that bear the name of a record field are primed (\<open>accountName'\<close>,
  \<open>blocksBehind'\<close>).
\<close>

definition rawAbiToJson :: "('types, 'ty) env \<Rightarrow> bytes \<Rightarrow> error + Abi" where
  "rawAbiToJson env raw =
     (case buffer_getString env raw of
        Inl e \<Rightarrow> Inl e
      | Inr version \<Rightarrow>
          if \<not> ser_supportedAbiVersion env version then Inl (Error ''Unsupported abi version'')
          else abi_def_deserialize env raw)"

text \<open>
  \<open>getCachedAbi\<close>. The \<open>try\<close> block ends with the local \<open>cachedAbi\<close> assigned
  (\<open>Some\<close>); its handler prefixes the message of whatever was thrown and throws it
  again; the test for a missing \<open>cachedAbi\<close> follows, then the store.
\<close>

definition getCachedAbi ::
  "('types, 'ty) env \<Rightarrow> string \<Rightarrow> bool \<Rightarrow> (CachedAbi, ('types, 'ty) Api) async" where
  "getCachedAbi env accountName' reload st =
     (case (if reload then None else cachedAbis st accountName') of
        Some cached \<Rightarrow> resolve cached st
      | None \<Rightarrow>
          (case await (request (GetRawAbi accountName')
                         (\<lambda>tr. abiProvider_getRawAbi env tr accountName'))
                  (\<lambda>fetched. await (settle (rawAbiToJson env (abi fetched)))
                     (\<lambda>json. resolve (Some \<lparr>rawAbi = abi fetched, structuredAbi = json\<rparr>))) st of
             (Inl e, st') \<Rightarrow>
               (Inl (prefix_message (''fetching abi for '' @ accountName' @ '': '') e), st')
           | (Inr None, st') \<Rightarrow> (Inl (Error (''Missing abi for '' @ accountName')), st')
           | (Inr (Some cachedAbi), st') \<Rightarrow>
               (Inr cachedAbi, st'\<lparr>cachedAbis := (cachedAbis st')(accountName' \<mapsto> cachedAbi)\<rparr>)))"

definition getAbi ::
  "('types, 'ty) env \<Rightarrow> string \<Rightarrow> bool \<Rightarrow> (Abi, ('types, 'ty) Api) async" where
  "getAbi env accountName' reload =
     await (getCachedAbi env accountName' reload) (\<lambda>cached. resolve (structuredAbi cached))"

text \<open>\<open>[...new Set(xs)]\<close>: the first occurrence of each element, in order.\<close>

fun uniq :: "'a list \<Rightarrow> 'a list" where
  "uniq [] = []"
| "uniq (x # xs) = x # uniq (filter (\<lambda>y. y \<noteq> x) xs)"

text \<open>
  \<open>getTransactionAbis\<close>. With no \<open>actions\<close>, \<open>concat(undefined)\<close> puts \<open>undefined\<close>
  into the list and reading its \<open>account\<close> throws, before any ABI is asked for.
\<close>

definition getTransactionAbis ::
  "('types, 'ty) env \<Rightarrow> transaction \<Rightarrow> bool \<Rightarrow> (BinaryAbi list, ('types, 'ty) Api) async" where
  "getTransactionAbis env tx reload =
     (case actions tx of
        None \<Rightarrow> reject (TypeError ''Cannot read property account of undefined'')
      | Some acts \<Rightarrow>
          (let all_actions = (case context_free_actions tx of None \<Rightarrow> [] | Some cfa \<Rightarrow> cfa) @ acts;
               accounts = map account all_actions;
               uniqueAccounts = uniq accounts
           in promise_all
                (\<lambda>acc. await (getCachedAbi env acc reload)
                   (\<lambda>cached. resolve \<lparr>accountName = acc, abi = rawAbi cached\<rparr>))
                uniqueAccounts))"

text \<open>The loop of \<open>getContract\<close> over \<open>abi.actions\<close>, \<open>actions.set(name, getType(types, type))\<close>.\<close>

fun action_types ::
  "('types, 'ty) env \<Rightarrow> 'types \<Rightarrow> (string \<times> string) list \<Rightarrow> (string \<times> 'ty) list
     \<Rightarrow> error + (string \<times> 'ty) list" where
  "action_types env tys [] acts = Inr acts"
| "action_types env tys ((nm, tp) # rest) acts =
     (case ser_getType env tys tp of
        Inl e \<Rightarrow> Inl e
      | Inr t \<Rightarrow> action_types env tys rest (AList.update nm t acts))"

definition getContract ::
  "('types, 'ty) env \<Rightarrow> string \<Rightarrow> bool \<Rightarrow> (('types, 'ty) Contract, ('types, 'ty) Api) async" where
  "getContract env accountName' reload st =
     (case (if reload then None else contracts st accountName') of
        Some contract \<Rightarrow> resolve contract st
      | None \<Rightarrow>
          await (getAbi env accountName' reload)
            (\<lambda>json. await (settle (ser_getTypesFromAbi env json))
            (\<lambda>tys. await (settle (action_types env tys (abi_actions json) []))
            (\<lambda>acts st'.
               (let result = \<lparr>types = tys, contract_actions = acts\<rparr>
                in (Inr result, st'\<lparr>contracts := (contracts st')(accountName' \<mapsto> result)\<rparr>))))) st)"

definition serializeActions ::
  "('types, 'ty) env \<Rightarrow> action list option \<Rightarrow> (action list, ('types, 'ty) Api) async" where
  "serializeActions env acts =
     (case acts of
        None \<Rightarrow> reject (TypeError ''Cannot read property map of undefined'')
      | Some as \<Rightarrow>
          promise_all
            (\<lambda>a. await (getContract env (account a) False)
               (\<lambda>contract. settle (ser_serializeAction env contract a)))
            as)"

definition serializeTransaction :: "('types, 'ty) env \<Rightarrow> transaction \<Rightarrow> error + bytes" where
  "serializeTransaction env tx =
     transaction_serialize env
       (tx\<lparr>props :=
             [''max_net_usage_words'' \<mapsto> JNum 0, ''max_cpu_usage_ms'' \<mapsto> JNum 0,
              ''delay_sec'' \<mapsto> JNum 0, ''transaction_extensions'' \<mapsto> JArr []] ++ props tx,
           context_free_actions :=
             Some (case context_free_actions tx of None \<Rightarrow> [] | Some cfa \<Rightarrow> cfa),
           actions := Some (case actions tx of None \<Rightarrow> [] | Some as \<Rightarrow> as)\<rparr>)"

text \<open>
  \<open>serializeContextFreeData\<close>: \<open>None\<close> as argument is \<open>undefined\<close> or \<open>null\<close>, \<open>None\<close>
  as result is \<open>null\<close>. The new buffer holds nothing, so after \<open>pushVaruint32\<close> it
  holds the bytes of the count; the loop then calls \<open>pushBytes\<close> on it with every item
  in turn, and \<open>asUint8Array\<close> gives what it holds in the end.
\<close>

definition serializeContextFreeData ::
  "('types, 'ty) env \<Rightarrow> bytes list option \<Rightarrow> bytes option" where
  "serializeContextFreeData env contextFreeData =
     (case contextFreeData of
        None \<Rightarrow> None
      | Some items \<Rightarrow>
          if length items = 0 then None
          else Some (foldl (pushBytes env) (pushVaruint32 env (length items)) items))"

definition pushSignedTransaction ::
  "('types, 'ty) env \<Rightarrow> PushTransactionArgs \<Rightarrow> (jsval, ('types, 'ty) Api) async" where
  "pushSignedTransaction env args =
     (let sent = \<lparr>signatures = signatures args, push_compression = None,
                   serializedTransaction = serializedTransaction args,
                   serializedContextFreeData = serializedContextFreeData args\<rparr>
      in request (PushTransaction sent) (\<lambda>tr. rpc_push_transaction env tr sent))"

definition pushCompressedSignedTransaction ::
  "('types, 'ty) env \<Rightarrow> PushTransactionArgs \<Rightarrow> (jsval, ('types, 'ty) Api) async" where
  "pushCompressedSignedTransaction env args =
     (let compressedSerializedTransaction = pako_deflate env (serializedTransaction args);
          compressedSerializedContextFreeData =
            pako_deflate env (case serializedContextFreeData args of None \<Rightarrow> [] | Some d \<Rightarrow> d);
          sent = \<lparr>signatures = signatures args, push_compression = Some 1,
                   serializedTransaction = compressedSerializedTransaction,
                   serializedContextFreeData = Some compressedSerializedContextFreeData\<rparr>
      in request (PushTransaction sent) (\<lambda>tr. rpc_push_transaction env tr sent))"

text \<open>\<open>tryGetBlockHeaderState\<close>: whatever \<open>get_block_header_state\<close> throws is caught.\<close>

definition tryGetBlockHeaderState ::
  "('types, 'ty) env \<Rightarrow> int option \<Rightarrow> (jsobj, ('types, 'ty) Api) async" where
  "tryGetBlockHeaderState env taposBlockNumber' st =
     (case request (GetBlockHeaderState taposBlockNumber')
             (\<lambda>tr. rpc_get_block_header_state env tr taposBlockNumber') st of
        (Inr state, st') \<Rightarrow> (Inr state, st')
      | (Inl error_1, st') \<Rightarrow>
          request (GetBlock taposBlockNumber') (\<lambda>tr. rpc_get_block env tr taposBlockNumber') st')"

text \<open>The truth of an optional boolean: \<open>undefined\<close> and \<open>false\<close> are falsy.\<close>

definition flag :: "bool option \<Rightarrow> bool" where
  "flag v = (v = Some True)"

text \<open>
  \<open>useLastIrreversible ? info.last_irreversible_block_num : info.head_block_num - blocksBehind\<close>;
  subtracting \<open>undefined\<close> gives \<open>NaN\<close> (\<open>None\<close>), and \<open>NaN <= x\<close> is false.
\<close>

definition taposBlockNumber :: "GetInfoResult \<Rightarrow> int option \<Rightarrow> bool option \<Rightarrow> int option" where
  "taposBlockNumber info blocksBehind' useLastIrreversible' =
     (if flag useLastIrreversible' then Some (last_irreversible_block_num info)
      else (case blocksBehind' of None \<Rightarrow> None | Some b \<Rightarrow> Some (head_block_num info - b)))"

definition js_le :: "int option \<Rightarrow> int \<Rightarrow> bool" where
  "js_le x y = (case x of None \<Rightarrow> False | Some v \<Rightarrow> v \<le> y)"

definition generateTapos ::
  "('types, 'ty) env \<Rightarrow> GetInfoResult option \<Rightarrow> transaction \<Rightarrow> int option \<Rightarrow> bool option
     \<Rightarrow> int \<Rightarrow> (transaction, ('types, 'ty) Api) async" where
  "generateTapos env info tx blocksBehind' useLastIrreversible' expireSeconds' =
     await (case info of None \<Rightarrow> request GetInfo (rpc_get_info env) | Some i \<Rightarrow> resolve i)
       (\<lambda>info.
          (let n = taposBlockNumber info blocksBehind' useLastIrreversible'
           in await (if js_le n (last_irreversible_block_num info)
                     then request (GetBlock n) (\<lambda>tr. rpc_get_block env tr n)
                     else tryGetBlockHeaderState env n)
                (\<lambda>refBlock. await (settle (ser_transactionHeader env refBlock expireSeconds'))
                (\<lambda>generated. resolve (tx\<lparr>props := generated ++ props tx\<rparr>)))))"

definition hasRequiredTaposFields :: "transaction \<Rightarrow> bool" where
  "hasRequiredTaposFields tx =
     (truthy (js_get (props tx) ''expiration'')
      \<and> is_number (js_get (props tx) ''ref_block_num'')
      \<and> is_number (js_get (props tx) ''ref_block_prefix''))"

subsection \<open>\<open>transact\<close>\<close>

text \<open>
  \<open>transact\<close> is written in four parts, in the order of the source: the chain id
  (\<open>if (!this.chainId)\<close>), the TAPoS fields, the signature (\<open>if (sign)\<close>), and
  everything from \<open>getTransactionAbis\<close> to the end. What it returns is the answer
  of the node or the arguments it did not push.
\<close>

datatype transact_result = Pushed jsval | Unsent PushTransactionArgs

text \<open>\<open>!!this.chainId\<close>: the empty string is falsy too.\<close>

definition chainIdSet :: "('types, 'ty) Api \<Rightarrow> bool" where
  "chainIdSet st = (chainId st \<noteq> None \<and> chainId st \<noteq> Some [])"

text \<open>The chain id; the value is the local \<open>info\<close>, \<open>undefined\<close> when nothing was fetched.\<close>

definition transact_chainId ::
  "('types, 'ty) env \<Rightarrow> (GetInfoResult option, ('types, 'ty) Api) async" where
  "transact_chainId env st =
     (if chainIdSet st then resolve None st
      else await (request GetInfo (rpc_get_info env))
             (\<lambda>info st'. (Inr (Some info), st'\<lparr>chainId := Some (chain_id info)\<rparr>)) st)"

text \<open>
  \<open>!transaction.ref_block_num || !transaction.ref_block_prefix || !transaction.expiration\<close>
\<close>

definition taposFieldMissing :: "transaction \<Rightarrow> bool" where
  "taposFieldMissing tx =
     (\<not> truthy (js_get (props tx) ''ref_block_num'')
      \<or> \<not> truthy (js_get (props tx) ''ref_block_prefix'')
      \<or> \<not> truthy (js_get (props tx) ''expiration''))"

text \<open>
  The TAPoS fields. \<open>generateTapos\<close> runs when
  \<open>(typeof blocksBehind === 'number' || useLastIrreversible) && expireSeconds\<close>.
\<close>

definition transact_tapos ::
  "('types, 'ty) env \<Rightarrow> GetInfoResult option \<Rightarrow> transaction \<Rightarrow> TransactConfig
     \<Rightarrow> (transaction, ('types, 'ty) Api) async" where
  "transact_tapos env info tx cfg =
     (if taposFieldMissing tx then
        await (case expireSeconds cfg of
                 None \<Rightarrow> resolve tx
               | Some es \<Rightarrow>
                   if (blocksBehind cfg \<noteq> None \<or> flag (useLastIrreversible cfg)) \<and> es \<noteq> 0
                   then generateTapos env info tx (blocksBehind cfg) (useLastIrreversible cfg) es
                   else resolve tx)
          (\<lambda>tx'. if \<not> hasRequiredTaposFields tx'
                 then reject (Error ''Required configuration or TAPOS fields are not present'')
                 else resolve tx')
      else resolve tx)"

text \<open>The signature: the keys are \<open>this.requiredKeys\<close> when set, the authority provider's otherwise.\<close>

definition transact_sign ::
  "('types, 'ty) env \<Rightarrow> transaction \<Rightarrow> BinaryAbi list \<Rightarrow> bytes \<Rightarrow> bytes option
     \<Rightarrow> (PushTransactionArgs, ('types, 'ty) Api) async" where
  "transact_sign env tx abis' serializedTransaction' serializedContextFreeData' =
     await (request GetAvailableKeys (signatureProvider_getAvailableKeys env))
       (\<lambda>availableKeys' st.
          await (case api_requiredKeys st of
                   None \<Rightarrow>
                     request (GetRequiredKeys \<lparr>transaction = tx, availableKeys = availableKeys'\<rparr>)
                       (\<lambda>tr. authorityProvider_getRequiredKeys env tr
                               \<lparr>transaction = tx, availableKeys = availableKeys'\<rparr>)
                 | Some keys \<Rightarrow> resolve keys)
            (\<lambda>requiredKeys' st'.
               (let args = \<lparr>sp_chainId = chainId st', sp_requiredKeys = requiredKeys',
                            sp_serializedTransaction = serializedTransaction',
                            sp_serializedContextFreeData = serializedContextFreeData',
                            sp_abis = abis'\<rparr>
                in request (Sign args) (\<lambda>tr. signatureProvider_sign env tr args) st')) st)"

definition transact_finish ::
  "('types, 'ty) env \<Rightarrow> transaction \<Rightarrow> TransactConfig
     \<Rightarrow> (transact_result, ('types, 'ty) Api) async" where
  "transact_finish env tx cfg =
     await (getTransactionAbis env tx False)
       (\<lambda>abis'. await (serializeActions env
                         (Some (case context_free_actions tx of None \<Rightarrow> [] | Some cfa \<Rightarrow> cfa)))
       (\<lambda>cfa. await (serializeActions env (actions tx))
       (\<lambda>acts.
          (let tx' = tx\<lparr>context_free_actions := Some cfa, actions := Some acts\<rparr>
           in await (settle (serializeTransaction env tx'))
                (\<lambda>serializedTransaction'.
                   (let serializedContextFreeData' =
                          serializeContextFreeData env (context_free_data tx')
                    in await (if (case sign cfg of None \<Rightarrow> True | Some b \<Rightarrow> b)
                              then transact_sign env tx' abis' serializedTransaction'
                                     serializedContextFreeData'
                              else resolve \<lparr>signatures = [], push_compression = None,
                                     serializedTransaction = serializedTransaction',
                                     serializedContextFreeData = serializedContextFreeData'\<rparr>)
                         (\<lambda>pushTransactionArgs.
                            if (case broadcast cfg of None \<Rightarrow> True | Some b \<Rightarrow> b)
                            then await (if flag (compression cfg)
                                        then pushCompressedSignedTransaction env pushTransactionArgs
                                        else pushSignedTransaction env pushTransactionArgs)
                                   (\<lambda>receipt. resolve (Pushed receipt))
                            else resolve (Unsent pushTransactionArgs))))))))"

definition transact ::
  "('types, 'ty) env \<Rightarrow> transaction \<Rightarrow> TransactConfig
     \<Rightarrow> (transact_result, ('types, 'ty) Api) async" where
  "transact env tx cfg =
     (if blocksBehind cfg \<noteq> None \<and> flag (useLastIrreversible cfg)
      then reject (Error ''Use either blocksBehind or useLastIrreversible'')
      else await (transact_chainId env)
             (\<lambda>info. await (transact_tapos env info tx cfg)
             (\<lambda>tx'. transact_finish env tx' cfg)))"

section \<open>Notions for stating the properties\<close>

text \<open>A TAPoS field is missing when the transaction has no such property, or \<open>undefined\<close> or \<open>null\<close> in it.\<close>

definition missing :: "transaction \<Rightarrow> string \<Rightarrow> bool" where
  "missing tx p = (js_get (props tx) p = JUndefined \<or> js_get (props tx) p = JNull)"

text \<open>The calls a run issues: what it appends to the log.\<close>

definition issued :: "('a, ('types, 'ty) Api) async \<Rightarrow> ('types, 'ty) Api \<Rightarrow> event list" where
  "issued m st = drop (length (trace st)) (trace (snd (m st)))"

text \<open>The \<open>get_info\<close> that \<open>generateTapos\<close> issues when it is handed no \<open>info\<close>.\<close>

definition info_trace :: "GetInfoResult option \<Rightarrow> event list" where
  "info_trace info = (case info of None \<Rightarrow> [GetInfo] | Some i \<Rightarrow> [])"

text \<open>
  A property of the calls issued that holds of no call at all and of two runs one
  after the other when it holds of each; \<open>issues rk Q m\<close>: from any state whose
  \<open>this.requiredKeys\<close> is \<open>rk\<close>, the run \<open>m\<close> only appends to the log, what it appends
  satisfies \<open>Q\<close>, and \<open>this.requiredKeys\<close> is left as it was.
\<close>

definition closed :: "(event list \<Rightarrow> bool) \<Rightarrow> bool" where
  "closed Q = (Q [] \<and> (\<forall>xs ys. Q xs \<longrightarrow> Q ys \<longrightarrow> Q (xs @ ys)))"

definition issues ::
  "string list option \<Rightarrow> (event list \<Rightarrow> bool) \<Rightarrow> ('a, ('types, 'ty) Api) async \<Rightarrow> bool" where
  "issues rk Q m =
     (\<forall>st. api_requiredKeys st = rk \<longrightarrow>
        (\<exists>evs. trace (snd (m st)) = trace st @ evs \<and> Q evs
               \<and> api_requiredKeys (snd (m st)) = rk))"

text \<open>The calls of the signing step.\<close>

fun signing_event :: "event \<Rightarrow> bool" where
  "signing_event (GetRequiredKeys a) = True"
| "signing_event GetAvailableKeys = True"
| "signing_event (Sign args) = True"
| "signing_event ev = False"

text \<open>
  The keys of every signing request among \<open>evs\<close>, for an Api whose
  \<open>this.requiredKeys\<close> is \<open>rk\<close>: when it is set, they are \<open>rk\<close> and the authority
  provider is never asked; when it is not, they are what the authority provider
  answered to a request among \<open>evs\<close>.
\<close>

definition signs_with :: "('types, 'ty) env \<Rightarrow> string list option \<Rightarrow> event list \<Rightarrow> bool" where
  "signs_with env rk evs =
     (case rk of
        Some keys \<Rightarrow>
          (\<forall>args. Sign args \<in> set evs \<longrightarrow> sp_requiredKeys args = keys)
          \<and> (\<forall>a. GetRequiredKeys a \<notin> set evs)
      | None \<Rightarrow>
          (\<forall>args. Sign args \<in> set evs \<longrightarrow>
             (\<exists>a tr. GetRequiredKeys a \<in> set evs
                \<and> authorityProvider_getRequiredKeys env tr a = Inr (sp_requiredKeys args))))"

text \<open>
  The steps of \<open>transact\<close> from the signature on: what it does once it has the ABIs,
  the transaction with its actions serialized, and the serialized transaction.
\<close>

definition sign_and_push ::
  "('types, 'ty) env \<Rightarrow> TransactConfig \<Rightarrow> transaction \<times> BinaryAbi list \<times> bytes
     \<Rightarrow> (transact_result, ('types, 'ty) Api) async" where
  "sign_and_push env cfg = (\<lambda>(tx', abis', serializedTransaction').
     (let serializedContextFreeData' = serializeContextFreeData env (context_free_data tx')
      in await (if (case sign cfg of None \<Rightarrow> True | Some b \<Rightarrow> b)
                then transact_sign env tx' abis' serializedTransaction'
                       serializedContextFreeData'
                else resolve \<lparr>signatures = [], push_compression = None,
                       serializedTransaction = serializedTransaction',
                       serializedContextFreeData = serializedContextFreeData'\<rparr>)
           (\<lambda>pushTransactionArgs.
              if (case broadcast cfg of None \<Rightarrow> True | Some b \<Rightarrow> b)
              then await (if flag (compression cfg)
                          then pushCompressedSignedTransaction env pushTransactionArgs
                          else pushSignedTransaction env pushTransactionArgs)
                     (\<lambda>receipt. resolve (Pushed receipt))
              else resolve (Unsent pushTransactionArgs))))"

text \<open>Calls that are not of the signing step.\<close>

definition other_calls :: "event list \<Rightarrow> bool" where
  "other_calls evs = list_all (\<lambda>ev. \<not> signing_event ev) evs"

text \<open>
  \<open>reaches rk step m\<close>: from any state whose \<open>this.requiredKeys\<close> is \<open>rk\<close>, the run \<open>m\<close>
  issues calls that are not of the signing step and leaves \<open>this.requiredKeys\<close> as it
  was, and then either rejects or goes on as \<open>step\<close> does on some argument.
\<close>

definition reaches ::
  "string list option \<Rightarrow> ('x \<Rightarrow> ('a, ('types, 'ty) Api) async)
     \<Rightarrow> ('a, ('types, 'ty) Api) async \<Rightarrow> bool" where
  "reaches rk step m =
     (\<forall>st. api_requiredKeys st = rk \<longrightarrow>
        (\<exists>pre s'. trace s' = trace st @ pre \<and> other_calls pre \<and> api_requiredKeys s' = rk
                  \<and> ((\<exists>e. m st = (Inl e, s')) \<or> (\<exists>x. m st = step x s'))))"

text \<open>
  What follows a \<open>getAvailableKeys\<close> that was asked when the log was \<open>tr\<close> and that was
  answered, for an Api whose \<open>this.requiredKeys\<close> is \<open>rk\<close>: when it is set, the signing
  request with these keys and nothing else; when it is not, \<open>getRequiredKeys\<close> for the
  available keys and, if that is answered, the signing request with the keys of the
  answer and nothing else.
\<close>

definition sign_requests ::
  "('types, 'ty) env \<Rightarrow> string list option \<Rightarrow> event list \<Rightarrow> event list \<Rightarrow> bool" where
  "sign_requests env rk tr evs =
     (\<forall>available. signatureProvider_getAvailableKeys env tr = Inr available \<longrightarrow>
        (case rk of
           Some override \<Rightarrow> (\<exists>args. evs = [Sign args] \<and> sp_requiredKeys args = override)
         | None \<Rightarrow>
             (\<exists>a more. evs = GetRequiredKeys a # more \<and> availableKeys a = available
                \<and> (\<forall>answered.
                      authorityProvider_getRequiredKeys env (tr @ [GetAvailableKeys]) a
                        = Inr answered \<longrightarrow>
                      (\<exists>args. more = [Sign args] \<and> sp_requiredKeys args = answered)))))"

section \<open>A small world to run the Api in\<close>

text \<open>
  A node at head block 100 with last irreversible block 90 that does not serve
  \<open>get_block_header_state\<close>; an ABI provider whose answer changes with every call; a
  signature provider holding two keys, of which the authority provider asks for the
  first; a \<open>SerialBuffer\<close> that writes as that of eosjs-serialize does: a number below
  128 as one byte, a byte array as its length followed by its bytes.
\<close>

definition demo_info :: GetInfoResult where
  "demo_info = \<lparr>chain_id = ''cafe'', head_block_num = 100, last_irreversible_block_num = 90\<rparr>"

definition demo_env :: "(unit, unit) env" where
  "demo_env =
     \<lparr> rpc_get_info = (\<lambda>tr. Inr demo_info),
       rpc_get_block = (\<lambda>tr n. Inr [''id'' \<mapsto> JStr ''0000'']),
       rpc_get_block_header_state = (\<lambda>tr n. Inl (Error ''unsupported'')),
       rpc_push_transaction = (\<lambda>tr args. Inr (JStr ''receipt'')),
       abiProvider_getRawAbi = (\<lambda>tr a. Inr \<lparr>accountName = a, abi = [of_nat (length tr)]\<rparr>),
       authorityProvider_getRequiredKeys = (\<lambda>tr args. Inr (take 1 (availableKeys args))),
       signatureProvider_getAvailableKeys = (\<lambda>tr. Inr [''EOS6'', ''EOS7'']),
       signatureProvider_sign =
         (\<lambda>tr args. Inr \<lparr>signatures = [''SIG_K1''], push_compression = None,
                           serializedTransaction = sp_serializedTransaction args,
                           serializedContextFreeData = sp_serializedContextFreeData args\<rparr>),
       buffer_getString = (\<lambda>raw. Inr ''eosio::abi/1.1''),
       ser_supportedAbiVersion = (\<lambda>v. v = ''eosio::abi/1.1''),
       abi_def_deserialize =
         (\<lambda>raw. Inr \<lparr>abi_version = ''eosio::abi/1.1'',
                      abi_actions = [(''transfer'', ''transfer'')]\<rparr>),
       ser_getTypesFromAbi = (\<lambda>json. Inr ()),
       ser_getType = (\<lambda>tys tp. Inr ()),
       ser_serializeAction = (\<lambda>contract a. Inr (a\<lparr>action_data := JStr ''00''\<rparr>)),
       transaction_serialize = (\<lambda>tx. Inr [1, 2, 3]),
       ser_transactionHeader =
         (\<lambda>refBlock es. Inr [''expiration'' \<mapsto> JNum es, ''ref_block_num'' \<mapsto> JNum 97,
                               ''ref_block_prefix'' \<mapsto> JNum 5]),
       pushVaruint32 = (\<lambda>n. [of_nat n]),
       pushBytes = (\<lambda>buffer v. buffer @ [of_nat (length v)] @ v),
       pako_deflate = (\<lambda>b. b) \<rparr>"

text \<open>The same world with the node out of reach.\<close>

definition offline_env :: "(unit, unit) env" where
  "offline_env = demo_env\<lparr>rpc_get_info := (\<lambda>tr. Inl (Error ''connect ECONNREFUSED''))\<rparr>"

text \<open>An Api constructed with a chain id, and one constructed without.\<close>

definition demo_api :: "(unit, unit) Api" where
  "demo_api = \<lparr> chainId = Some ''cafe'', api_requiredKeys = None, cachedAbis = Map.empty,
                 contracts = Map.empty, trace = [] \<rparr>"

definition fresh_api :: "(unit, unit) Api" where
  "fresh_api = \<lparr> chainId = None, api_requiredKeys = None, cachedAbis = Map.empty,
                  contracts = Map.empty, trace = [] \<rparr>"

text \<open>An Api constructed with the keys to sign with.\<close>

definition override_api :: "(unit, unit) Api" where
  "override_api = demo_api\<lparr>api_requiredKeys := Some [''EOS7'']\<rparr>"

definition demo_transfer :: action where
  "demo_transfer =
     \<lparr> account = ''eosio.token'', name = ''transfer'',
       authorization = JArr [JObj [(''actor'', JStr ''alice''), (''permission'', JStr ''active'')]],
       action_data = JObj [(''quantity'', JStr ''1.0000 EOS'')] \<rparr>"

text \<open>
  A transfer with no TAPoS field, one that brings its own expiration, and one whose
  \<open>ref_block_num\<close> is 0.
\<close>

definition demo_tx :: transaction where
  "demo_tx = \<lparr> props = Map.empty, context_free_actions = None,
                actions = Some [demo_transfer], context_free_data = None \<rparr>"

definition dated_tx :: transaction where
  "dated_tx = demo_tx\<lparr>props := [''expiration'' \<mapsto> JStr ''2030-01-01T00:00:00'']\<rparr>"

definition zero_tx :: transaction where
  "zero_tx = demo_tx\<lparr>props := [''expiration'' \<mapsto> JStr ''2030-01-01T00:00:00'',
                                 ''ref_block_num'' \<mapsto> JNum 0,
                                 ''ref_block_prefix'' \<mapsto> JNum 7]\<rparr>"

definition no_config :: TransactConfig where
  "no_config = \<lparr> broadcast = None, sign = None, requiredKeys = None, compression = None,
                  blocksBehind = None, useLastIrreversible = None, expireSeconds = None \<rparr>"

definition behind_config :: TransactConfig where
  "behind_config = no_config\<lparr>blocksBehind := Some 3, expireSeconds := Some 30\<rparr>"

section \<open>Proofs: Signature.ts\<close>

subsection \<open>Bytes and numbers\<close>

lemma int_and3: "(x::int) AND 3 = x mod 4"
  using take_bit_eq_mod [of 2 x] by (simp add: take_bit_eq_mask mask_eq_exp_minus_1)

lemma BN_snoc: "BN (xs @ [b]) = BN xs * 256 + unat b"
  by (simp add: BN_def)

lemma BN_toArray: "BN (toArray n) = n"
proof (induction n rule: toArray.induct)
  case (1 n)
  show ?case
  proof (cases "n < 256")
    case True
    then show ?thesis
      by (simp add: toArray.simps [of n] BN_def unat_of_nat)
  next
    case False
    with 1 show ?thesis
      by (simp add: toArray.simps [of n] BN_snoc unat_of_nat)
  qed
qed

lemma length_toArray:
  "256 ^ k \<le> n \<Longrightarrow> n < 256 ^ Suc k \<Longrightarrow> length (toArray n) = Suc k"
proof (induction k arbitrary: n)
  case 0
  then show ?case
    by (simp add: toArray.simps [of n])
next
  case (Suc k)
  have "(256::nat) ^ Suc 0 \<le> 256 ^ Suc k"
    by (rule power_increasing) simp_all
  then have "(256::nat) \<le> 256 ^ Suc k"
    by simp
  from this Suc.prems(1) have big: "256 \<le> n"
    by (rule order_trans)
  have "256 ^ k \<le> n div 256"
    using Suc.prems(1) by (simp add: less_eq_div_iff_mult_less_eq)
  moreover have "n div 256 < 256 ^ Suc k"
    using Suc.prems(2) by (simp add: div_less_iff_less_mult mult.commute)
  ultimately have "length (toArray (n div 256)) = Suc k"
    by (rule Suc.IH)
  with big show ?case
    by (simp add: toArray.simps [of n])
qed

lemma mod256_diff_mod4: "((x::int) mod 256 - c) mod 4 = (x - c) mod 4"
proof -
  have "(x mod 256 - c) mod 4 = ((x mod 256) mod 4 - c mod 4) mod 4"
    by (simp add: mod_diff_eq)
  also have "(x mod 256) mod 4 = x mod 4"
    by (simp add: mod_mod_cancel)
  finally show ?thesis
    by (simp add: mod_diff_eq)
qed

lemma and3_k1_header:
  "and3 (ellipticRecoveryBitField k1 (Some (x mod 256))) = (x - 27) mod 4"
proof -
  have "(x mod 256 - 27 - 4) mod 4 = (x mod 256 - 27) mod 4"
    using mod_diff_eq [of "x mod 256 - 27" 4 4] by simp
  then show ?thesis
    by (simp add: and3_def ellipticRecoveryBitField_def int_and3 mod256_diff_mod4)
qed

lemma and3_range: "0 \<le> and3 v \<and> and3 v \<le> 3"
  by (cases v) (simp_all add: and3_def int_and3)

subsection \<open>The recovery parameter survives the round trip, whatever \<open>r\<close> and \<open>s\<close> are\<close>

lemma recoveryParam_roundtrip:
  "recoveryParam (toElliptic (fromElliptic sig kt)) = recoveryParam sig AND 3"
proof (cases kt)
  case k1
  have "(recoveryParam sig + 27 + 4 - 27) mod 4 = recoveryParam sig mod 4"
    by simp
  with k1 show ?thesis
    by (simp add: toElliptic_def fromElliptic_def header_def eosioRecoveryParam_def
        uint_word_of_int and3_k1_header int_and3)
next
  case r1
  then show ?thesis
    by (simp add: toElliptic_def fromElliptic_def header_def eosioRecoveryParam_def
        ellipticRecoveryBitField_def and3_def uint_word_of_int int_and3 mod_mod_cancel)
next
  case wa
  then show ?thesis
    by (simp add: toElliptic_def fromElliptic_def header_def eosioRecoveryParam_def
        ellipticRecoveryBitField_def and3_def uint_word_of_int int_and3 mod_mod_cancel)
qed

subsection \<open>\<open>r\<close> and \<open>s\<close> survive it only when both fill 32 bytes\<close>

lemma length_toArray_32:
  "2 ^ 248 \<le> n \<Longrightarrow> n < 2 ^ 256 \<Longrightarrow> length (toArray n) = 32"
  using length_toArray [of 31 n] by simp

lemma full_width_roundtrip:
  assumes "2 ^ 248 \<le> r sig" "r sig < 2 ^ 256" "2 ^ 248 \<le> s sig" "s sig < 2 ^ 256"
  shows "length (data (fromElliptic sig kt)) = 65"
    and "r (toElliptic (fromElliptic sig kt)) = r sig"
    and "s (toElliptic (fromElliptic sig kt)) = s sig"
proof -
  have lr: "length (toArray (r sig)) = 32" and ls: "length (toArray (s sig)) = 32"
    using assms by (simp_all add: length_toArray_32)
  show "length (data (fromElliptic sig kt)) = 65"
    by (simp add: fromElliptic_def lr ls)
  show "r (toElliptic (fromElliptic sig kt)) = r sig"
    by (simp add: toElliptic_def fromElliptic_def slice_def lr BN_toArray)
  show "s (toElliptic (fromElliptic sig kt)) = s sig"
    by (simp add: toElliptic_def fromElliptic_def slice_def lr ls BN_toArray)
qed

text \<open>
  C1. The round trip of \<open>fromElliptic\<close> and \<open>toElliptic\<close> is to give back \<open>r\<close> and \<open>s\<close>
  from a 65-byte buffer that holds each in 32 zero-padded bytes. \<open>toArray()\<close> pads
  nothing. For \<open>r = 1\<close>, \<open>s = 2\<close>, \<open>recoveryParam = 0\<close> and key type \<open>k1\<close> the buffer
  is the three bytes 31, 1, 2, and \<open>toElliptic\<close> reads \<open>r = 258\<close> and \<open>s = 0\<close> out of
  it. For an \<open>r\<close> of 31 bytes, \<open>2 ^ 240\<close>, beside an \<open>s\<close> of 32 bytes, \<open>2 ^ 255\<close>,
  the buffer has 64 bytes, the first byte of \<open>s\<close> is read as the last byte of \<open>r\<close>,
  and \<open>s\<close> is read as 0. Only the recovery parameter comes back as claimed.
\<close>

theorem fromElliptic_short_r_not_padded:
  "data (fromElliptic \<lparr> r = 1, s = 2, recoveryParam = 0 \<rparr> k1) = [31, 1, 2]
   \<and> toElliptic (fromElliptic \<lparr> r = 1, s = 2, recoveryParam = 0 \<rparr> k1)
       = \<lparr> r = 258, s = 0, recoveryParam = 0 \<rparr>
   \<and> length (data (fromElliptic \<lparr> r = 2 ^ 240, s = 2 ^ 255, recoveryParam = 1 \<rparr> k1)) = 64
   \<and> toElliptic (fromElliptic \<lparr> r = 2 ^ 240, s = 2 ^ 255, recoveryParam = 1 \<rparr> k1)
       = \<lparr> r = 2 ^ 248 + 128, s = 0, recoveryParam = 1 \<rparr>"
  by (simp add: fromElliptic_def toElliptic_def eosioRecoveryParam_def toArray.simps
      slice_def BN_def header_def ellipticRecoveryBitField_def and3_def)

text \<open>
  C2. For key type \<open>k1\<close> a recovery parameter in \<open>{0,1,2,3}\<close> gives the header byte
  \<open>recoveryParam + 27 + 4\<close>, one of 31, 32, 33, 34; for \<open>r1\<close> and \<open>wa\<close> the header
  byte is the recovery parameter itself (for every value a byte holds); and
  \<open>toElliptic\<close> returns a recovery parameter in \<open>{0,1,2,3}\<close> for every stored signature,
  of any type and with any data.
\<close>

theorem header_byte_and_recoveryParam_range:
  "(rp \<in> {0, 1, 2, 3} \<longrightarrow>
      header (data (fromElliptic \<lparr> r = x, s = y, recoveryParam = rp \<rparr> k1)) = Some (rp + 27 + 4)
      \<and> rp + 27 + 4 \<in> {31, 32, 33, 34})
   \<and> (0 \<le> rp \<and> rp \<le> 255 \<longrightarrow>
      header (data (fromElliptic \<lparr> r = x, s = y, recoveryParam = rp \<rparr> r1)) = Some rp
      \<and> header (data (fromElliptic \<lparr> r = x, s = y, recoveryParam = rp \<rparr> wa)) = Some rp)
   \<and> recoveryParam (toElliptic sig) \<in> {0, 1, 2, 3}"
proof -
  have range: "recoveryParam (toElliptic sig) \<in> {0, 1, 2, 3}"
  proof -
    let ?v = "and3 (ellipticRecoveryBitField (type sig) (header (data sig)))"
    have "0 \<le> ?v \<and> ?v \<le> 3"
      by (rule and3_range)
    then have "?v = 0 \<or> ?v = 1 \<or> ?v = 2 \<or> ?v = 3"
      by arith
    then show ?thesis
      by (simp add: toElliptic_def)
  qed
  have k1_header: "header (data (fromElliptic \<lparr> r = x, s = y, recoveryParam = rp \<rparr> k1))
      = Some (rp + 27 + 4) \<and> rp + 27 + 4 \<in> {31, 32, 33, 34}" if "rp \<in> {0, 1, 2, 3}"
    using that by (auto simp: fromElliptic_def header_def eosioRecoveryParam_def)
  have plain: "header (data (fromElliptic \<lparr> r = x, s = y, recoveryParam = rp \<rparr> kt)) = Some rp"
    if "0 \<le> rp" "rp \<le> 255" "kt = r1 \<or> kt = wa" for kt
    using that by (auto simp: fromElliptic_def header_def eosioRecoveryParam_def uint_word_of_int)
  from range k1_header plain show ?thesis
    by blast
qed

theorem header_byte_and_recoveryParam_range_witness:
  "(2::int) \<in> {0, 1, 2, 3}
   \<and> header (data (fromElliptic \<lparr> r = 5, s = 7, recoveryParam = 2 \<rparr> k1)) = Some 33
   \<and> header (data (fromElliptic \<lparr> r = 5, s = 7, recoveryParam = 2 \<rparr> r1)) = Some 2
   \<and> header (data (fromElliptic \<lparr> r = 5, s = 7, recoveryParam = 2 \<rparr> wa)) = Some 2
   \<and> recoveryParam (toElliptic \<lparr> type = k1, data = [] \<rparr>) \<in> {0, 1, 2, 3}"
  using header_byte_and_recoveryParam_range [of 2 5 7 "\<lparr> type = k1, data = [] \<rparr>"]
  by simp

section \<open>Proofs: running asynchronous functions\<close>

lemma await_resolve [simp]: "await (resolve x) k = k x"
  by (rule ext) (simp add: await_def resolve_def)

lemma await_reject [simp]: "await (reject e) k = reject e"
  by (rule ext) (simp add: await_def reject_def)

lemma trace_await_pure:
  assumes "\<And>x s'. trace (snd (k x s')) = trace s'"
  shows "trace (snd (await m k sa)) = trace (snd (m sa))"
  using assms by (cases "m sa" rule: prod.exhaust; cases "fst (m sa)") (auto simp: await_def)

lemma prefix_await:
  assumes "\<And>x sa. prefix (trace sa) (trace (snd (k x sa)))"
  shows "prefix (trace (snd (m st))) (trace (snd (await m k st)))"
proof (cases "m st")
  case (Pair res s1)
  then show ?thesis
    using assms by (cases res) (simp_all add: await_def)
qed

lemma trace_request: "trace (snd (request ev answer sa)) = trace sa @ [ev]"
  by (simp add: request_def)

lemma issued_eq: "trace (snd (m st)) = trace st @ evs \<Longrightarrow> issued m st = evs"
  by (simp add: issued_def)

lemmas demo_defs =
  demo_env_def demo_info_def demo_api_def fresh_api_def offline_env_def demo_tx_def
  demo_transfer_def dated_tx_def zero_tx_def no_config_def behind_config_def

section \<open>Proofs: \<open>transact\<close> and its configuration\<close>

text \<open>
  C3. With \<open>blocksBehind\<close> a number and \<open>useLastIrreversible\<close> set, \<open>transact\<close> throws
  'Use either blocksBehind or useLastIrreversible' whatever the transaction, the
  world and the state of the Api: it has issued no call by then (no \<open>get_info\<close>, no
  call of any kind), and the Api is as it was.
\<close>

theorem transact_rejects_both_strategies:
  assumes "blocksBehind cfg = Some b" and "useLastIrreversible cfg = Some True"
  shows "fst (transact env tx cfg st) = Inl (Error ''Use either blocksBehind or useLastIrreversible'')
         \<and> issued (transact env tx cfg) st = []
         \<and> snd (transact env tx cfg st) = st"
  using assms by (simp add: transact_def flag_def reject_def issued_def)

theorem transact_rejects_both_strategies_witness:
  "fst (transact demo_env demo_tx
          (no_config\<lparr>blocksBehind := Some 3, useLastIrreversible := Some True\<rparr>) fresh_api)
     = Inl (Error ''Use either blocksBehind or useLastIrreversible'')
   \<and> issued (transact demo_env demo_tx
        (no_config\<lparr>blocksBehind := Some 3, useLastIrreversible := Some True\<rparr>)) fresh_api = []"
  using transact_rejects_both_strategies
    [of "no_config\<lparr>blocksBehind := Some 3, useLastIrreversible := Some True\<rparr>" 3
        demo_env demo_tx fresh_api]
  by simp

lemma missing_not_required:
  "missing tx ''expiration'' \<or> missing tx ''ref_block_num'' \<or> missing tx ''ref_block_prefix''
   \<Longrightarrow> taposFieldMissing tx \<and> \<not> hasRequiredTaposFields tx"
  by (auto simp: missing_def taposFieldMissing_def hasRequiredTaposFields_def)

lemma transact_tapos_unconfigured:
  fixes env :: "('types, 'ty) env"
  assumes "missing tx ''expiration'' \<or> missing tx ''ref_block_num'' \<or> missing tx ''ref_block_prefix''"
    and "\<not> ((blocksBehind cfg \<noteq> None \<or> flag (useLastIrreversible cfg))
             \<and> expireSeconds cfg \<noteq> None \<and> expireSeconds cfg \<noteq> Some 0)"
  shows "transact_tapos env info tx cfg st
         = (Inl (Error ''Required configuration or TAPOS fields are not present''), st)"
proof -
  from assms(1) have m: "taposFieldMissing tx" and h: "\<not> hasRequiredTaposFields tx"
    using missing_not_required by blast+
  have "(case expireSeconds cfg of
           None \<Rightarrow> resolve tx
         | Some es \<Rightarrow>
             if (blocksBehind cfg \<noteq> None \<or> flag (useLastIrreversible cfg)) \<and> es \<noteq> 0
             then generateTapos env info tx (blocksBehind cfg) (useLastIrreversible cfg) es
             else resolve tx) = (resolve tx :: (transaction, ('types, 'ty) Api) async)"
    using assms(2) by (cases "expireSeconds cfg") auto
  with m h show ?thesis
    by (simp add: transact_tapos_def reject_def)
qed

lemma demo_tx_missing: "missing demo_tx ''expiration''"
  by (simp add: missing_def demo_tx_def js_get_def)

text \<open>
  C4, as it holds. For a transaction in which one of \<open>expiration\<close>, \<open>ref_block_num\<close>,
  \<open>ref_block_prefix\<close> is missing, and with none of \<open>blocksBehind\<close>,
  \<open>useLastIrreversible\<close>, \<open>expireSeconds\<close> supplied, \<open>transact\<close> issues no call but
  the \<open>get_info\<close> it needs when the Api has no chain id: no ABI is fetched, nothing
  is signed or pushed. It throws 'Required configuration or TAPOS fields are not
  present' when the chain id is set or that \<open>get_info\<close> is answered; when that
  \<open>get_info\<close> fails, it throws that failure.
\<close>

theorem transact_incomplete_tapos:
  fixes env :: "('types, 'ty) env"
  assumes "missing tx ''expiration'' \<or> missing tx ''ref_block_num'' \<or> missing tx ''ref_block_prefix''"
    and "blocksBehind cfg = None" and "useLastIrreversible cfg = None" and "expireSeconds cfg = None"
  shows "(chainIdSet st \<or> (\<exists>i. rpc_get_info env (trace st) = Inr i)
            \<longrightarrow> fst (transact env tx cfg st)
                  = Inl (Error ''Required configuration or TAPOS fields are not present''))
         \<and> (\<not> chainIdSet st \<and> rpc_get_info env (trace st) = Inl e
            \<longrightarrow> fst (transact env tx cfg st) = Inl e)
         \<and> issued (transact env tx cfg) st = (if chainIdSet st then [] else [GetInfo])"
proof -
  have tapos: "transact_tapos env info tx cfg sa
         = (Inl (Error ''Required configuration or TAPOS fields are not present''), sa)" for info sa
    using assms by (intro transact_tapos_unconfigured) (simp_all add: flag_def)
  have run: "transact env tx cfg st
      = await (transact_chainId env)
          (\<lambda>info. reject (Error ''Required configuration or TAPOS fields are not present'')) st"
    using assms(2,3)
    by (simp add: transact_def await_def tapos reject_def split: prod.splits sum.splits)
  show ?thesis
  proof (cases "chainIdSet st")
    case True
    then have "transact_chainId env st = (Inr None, st)"
      by (simp add: transact_chainId_def resolve_def)
    with True show ?thesis
      by (simp add: run await_def reject_def issued_def)
  next
    case False
    show ?thesis
    proof (cases "rpc_get_info env (trace st)")
      case (Inl e')
      with False have "transact_chainId env st = (Inl e', st\<lparr>trace := trace st @ [GetInfo]\<rparr>)"
        by (simp add: transact_chainId_def await_def request_def)
      with False Inl show ?thesis
        by (simp add: run await_def issued_def)
    next
      case (Inr i)
      with False have "transact_chainId env st
          = (Inr (Some i), st\<lparr>trace := trace st @ [GetInfo], chainId := Some (chain_id i)\<rparr>)"
        by (simp add: transact_chainId_def await_def request_def)
      with False Inr show ?thesis
        by (simp add: run await_def reject_def issued_def)
    qed
  qed
qed

theorem transact_incomplete_tapos_witness:
  "fst (transact demo_env demo_tx no_config demo_api)
     = Inl (Error ''Required configuration or TAPOS fields are not present'')
   \<and> issued (transact demo_env demo_tx no_config) demo_api = []"
proof -
  have "chainIdSet demo_api"
    by (simp add: chainIdSet_def demo_api_def)
  with transact_incomplete_tapos [of demo_tx no_config demo_api demo_env] demo_tx_missing
  show ?thesis
    by (simp add: no_config_def)
qed

text \<open>
  C4, as it is stated, fails where the Api has no chain id and the node is out of
  reach: the transaction has no \<open>expiration\<close>, nothing is configured, and what
  \<open>transact\<close> throws is the failure of \<open>get_info\<close>, not the configuration error.
\<close>

theorem transact_incomplete_tapos_offline:
  "missing demo_tx ''expiration''
   \<and> blocksBehind no_config = None \<and> useLastIrreversible no_config = None
   \<and> expireSeconds no_config = None
   \<and> fst (transact offline_env demo_tx no_config fresh_api) = Inl (Error ''connect ECONNREFUSED'')
   \<and> fst (transact offline_env demo_tx no_config fresh_api)
       \<noteq> Inl (Error ''Required configuration or TAPOS fields are not present'')"
proof -
  have "fst (transact offline_env demo_tx no_config fresh_api) = Inl (Error ''connect ECONNREFUSED'')"
    by (simp add: transact_def no_config_def flag_def transact_chainId_def chainIdSet_def
        fresh_api_def await_def request_def offline_env_def)
  then show ?thesis
    by (simp add: demo_tx_missing no_config_def)
qed

section \<open>Proofs: \<open>serializeContextFreeData\<close>\<close>

lemma serializeContextFreeData_nonempty:
  "items \<noteq> [] \<Longrightarrow>
   serializeContextFreeData env (Some items)
     = Some (foldl (pushBytes env) (pushVaruint32 env (length items)) items)"
  by (simp add: serializeContextFreeData_def)

lemma foldl_length_prefixed:
  assumes "\<And>buffer v. pushBytes env buffer v = buffer @ pushVaruint32 env (length v) @ v"
  shows "foldl (pushBytes env) buffer items
           = buffer @ concat (map (\<lambda>v. pushVaruint32 env (length v) @ v) items)"
  by (induction items arbitrary: buffer) (simp_all add: assms)

lemma serializeContextFreeData_length_prefixed:
  assumes "\<And>buffer v. pushBytes env buffer v = buffer @ pushVaruint32 env (length v) @ v"
    and "items \<noteq> []"
  shows "serializeContextFreeData env (Some items)
           = Some (pushVaruint32 env (length items)
                     @ concat (map (\<lambda>v. pushVaruint32 env (length v) @ v) items))"
  using assms(2) by (simp add: serializeContextFreeData_nonempty foldl_length_prefixed [OF assms(1)])

text \<open>
  C7, as it holds. \<open>serializeContextFreeData\<close> gives \<open>null\<close>, not an empty
  array, for the empty list and for an absent argument. For the list of \<open>A\<close> and \<open>B\<close>
  it gives what the buffer holds after \<open>pushVaruint32\<close> of the count 2, \<open>pushBytes\<close>
  of \<open>A\<close> and \<open>pushBytes\<close> of \<open>B\<close>, in this order. With a \<open>pushBytes\<close> that appends the
  length of the array, as \<open>pushVaruint32\<close> writes it, and then the array, these are
  the bytes of the count 2, of the length of \<open>A\<close>, of \<open>A\<close>, of the length of \<open>B\<close> and
  of \<open>B\<close>.
\<close>

theorem serializeContextFreeData_cases:
  "serializeContextFreeData env (Some []) = None
   \<and> serializeContextFreeData env None = None
   \<and> serializeContextFreeData env (Some [A, B])
         = Some (pushBytes env (pushBytes env (pushVaruint32 env 2) A) B)
   \<and> ((\<forall>buffer v. pushBytes env buffer v = buffer @ pushVaruint32 env (length v) @ v) \<longrightarrow>
        serializeContextFreeData env (Some [A, B])
          = Some (pushVaruint32 env 2 @ pushVaruint32 env (length A) @ A
                    @ pushVaruint32 env (length B) @ B))"
  by (simp add: serializeContextFreeData_def numeral_2_eq_2)

theorem serializeContextFreeData_cases_witness:
  "(\<forall>buffer v. pushBytes demo_env buffer v = buffer @ pushVaruint32 demo_env (length v) @ v)
   \<and> serializeContextFreeData demo_env (Some []) = None
   \<and> serializeContextFreeData demo_env None = None
   \<and> serializeContextFreeData demo_env (Some [[7, 8], [9]]) = Some [2, 2, 7, 8, 1, 9]"
  using serializeContextFreeData_cases [where env = demo_env and A = "[7, 8]" and B = "[9]"]
  by (simp add: demo_env_def)

text \<open>
  C7, as it is stated, fails with the \<open>pushBytes\<close> of eosjs-serialize, which writes
  the length of an item before the item: for the items 1, 2 and 3 the buffer holds
  six bytes, the count 2, the length 2, the bytes 1 and 2, the length 1 and the byte
  3, not the count followed by 1, 2 and 3.
\<close>

theorem serializeContextFreeData_not_verbatim:
  "serializeContextFreeData demo_env (Some [[1, 2], [3]]) = Some [2, 2, 1, 2, 1, 3]
   \<and> serializeContextFreeData demo_env (Some [[1, 2], [3]])
         \<noteq> Some (pushVaruint32 demo_env 2 @ [1, 2] @ [3])"
  by (simp add: serializeContextFreeData_def demo_env_def)

section \<open>Proofs: \<open>generateTapos\<close>\<close>

lemma demo_generateTapos:
  "generateTapos demo_env (Some demo_info) dated_tx (Some 3) None 30 demo_api
     = (Inr (dated_tx\<lparr>props := [''expiration'' \<mapsto> JNum 30, ''ref_block_num'' \<mapsto> JNum 97,
                                  ''ref_block_prefix'' \<mapsto> JNum 5] ++ props dated_tx\<rparr>),
        demo_api\<lparr>trace := [GetBlockHeaderState (Some 97), GetBlock (Some 97)]\<rparr>)"
  by (simp add: generateTapos_def taposBlockNumber_def flag_def js_le_def
      tryGetBlockHeaderState_def request_def await_def settle_def resolve_def demo_defs)

text \<open>
  C5. The transaction that \<open>generateTapos\<close> returns has, for every property of the
  caller's transaction, the caller's value (and the caller's action lists and
  context-free data); a property of the generated header shows only where the
  caller's transaction has no property of that name.
\<close>

theorem generateTapos_keeps_caller_fields:
  assumes "generateTapos env info tx bb uli es st = (Inr tx', st')"
  shows "(\<forall>k\<in>dom (props tx). props tx' k = props tx k)
         \<and> context_free_actions tx' = context_free_actions tx
         \<and> actions tx' = actions tx
         \<and> context_free_data tx' = context_free_data tx
         \<and> (\<exists>refBlock generated.
               ser_transactionHeader env refBlock es = Inr generated
               \<and> (\<forall>k. k \<notin> dom (props tx) \<longrightarrow> props tx' k = generated k))"
proof -
  from assms obtain refBlock generated where
    g: "ser_transactionHeader env refBlock es = Inr generated"
    and t: "tx' = tx\<lparr>props := generated ++ props tx\<rparr>"
    by (auto simp: generateTapos_def await_def settle_def resolve_def Let_def
        split: sum.splits prod.splits)
  have "\<forall>k\<in>dom (props tx). props tx' k = props tx k"
    using t by (auto simp: map_add_def)
  moreover have "\<forall>k. k \<notin> dom (props tx) \<longrightarrow> props tx' k = generated k"
    using t by (auto simp: map_add_def domIff)
  ultimately show ?thesis
    using g t by auto
qed

theorem generateTapos_keeps_caller_fields_witness:
  "\<exists>tx'. fst (generateTapos demo_env (Some demo_info) dated_tx (Some 3) None 30 demo_api) = Inr tx'
         \<and> props tx' ''expiration'' = Some (JStr ''2030-01-01T00:00:00'')
         \<and> props tx' ''ref_block_num'' = Some (JNum 97)
         \<and> actions tx' = Some [demo_transfer]"
proof -
  let ?tx' = "dated_tx\<lparr>props := [''expiration'' \<mapsto> JNum 30, ''ref_block_num'' \<mapsto> JNum 97,
                                  ''ref_block_prefix'' \<mapsto> JNum 5] ++ props dated_tx\<rparr>"
  note kept = generateTapos_keeps_caller_fields [OF demo_generateTapos]
  have run: "fst (generateTapos demo_env (Some demo_info) dated_tx (Some 3) None 30 demo_api) = Inr ?tx'"
    by (simp add: demo_generateTapos)
  from kept have "\<forall>k\<in>dom (props dated_tx). props ?tx' k = props dated_tx k"
    by blast
  then have "props ?tx' ''expiration'' = props dated_tx ''expiration''"
    by (simp add: dated_tx_def)
  then have mine: "props ?tx' ''expiration'' = Some (JStr ''2030-01-01T00:00:00'')"
    by (simp add: dated_tx_def)
  from kept obtain refBlock generated where
    "ser_transactionHeader demo_env refBlock 30 = Inr generated"
    and "\<forall>k. k \<notin> dom (props dated_tx) \<longrightarrow> props ?tx' k = generated k"
    by blast
  then have theirs: "props ?tx' ''ref_block_num'' = Some (JNum 97)"
    by (auto simp: demo_env_def dated_tx_def)
  from kept have "actions ?tx' = actions dated_tx"
    by blast
  then have acts: "actions ?tx' = Some [demo_transfer]"
    by (simp add: dated_tx_def demo_tx_def)
  from run mine theirs acts show ?thesis
    by blast
qed

lemma trace_tryGetBlockHeaderState:
  "trace (snd (tryGetBlockHeaderState env n sa))
     = trace sa @ (case rpc_get_block_header_state env (trace sa) n of
                    Inr state \<Rightarrow> [GetBlockHeaderState n]
                  | Inl failure \<Rightarrow> [GetBlockHeaderState n, GetBlock n])"
  by (cases "rpc_get_block_header_state env (trace sa) n")
    (simp_all add: tryGetBlockHeaderState_def request_def)

lemma trace_merge_header:
  "trace (snd (await (settle (ser_transactionHeader env refBlock es))
                 (\<lambda>generated. resolve (tx\<lparr>props := generated ++ props tx\<rparr>)) s')) = trace s'"
  by (cases "ser_transactionHeader env refBlock es") (simp_all add: await_def settle_def resolve_def)

lemma generateTapos_with_info:
  assumes "info = Some i \<or> (info = None \<and> rpc_get_info env (trace st) = Inr i)"
  shows "generateTapos env info tx bb uli es st
         = (let n = taposBlockNumber i bb uli
            in await (if js_le n (last_irreversible_block_num i)
                      then request (GetBlock n) (\<lambda>tr. rpc_get_block env tr n)
                      else tryGetBlockHeaderState env n)
                 (\<lambda>refBlock. await (settle (ser_transactionHeader env refBlock es))
                 (\<lambda>generated. resolve (tx\<lparr>props := generated ++ props tx\<rparr>))))
             (st\<lparr>trace := trace st @ info_trace info\<rparr>)"
  using assms
  by (auto simp: generateTapos_def info_trace_def await_def request_def resolve_def)

lemma generateTapos_requests:
  assumes "info = Some i \<or> (info = None \<and> rpc_get_info env (trace st) = Inr i)"
  shows
    "(let lib = last_irreversible_block_num i;
          n = (if flag uli then Some lib
               else case bb of None \<Rightarrow> None | Some b \<Rightarrow> Some (head_block_num i - b));
          tr = trace st @ info_trace info
      in trace (snd (generateTapos env info tx bb uli es st))
           = tr @ (if js_le n lib then [GetBlock n]
                   else case rpc_get_block_header_state env tr n of
                          Inr state \<Rightarrow> [GetBlockHeaderState n]
                        | Inl failure \<Rightarrow> [GetBlockHeaderState n, GetBlock n]))"
proof -
  let ?n = "taposBlockNumber i bb uli"
  let ?s = "st\<lparr>trace := trace st @ info_trace info\<rparr>"
  have "trace (snd (generateTapos env info tx bb uli es st))
        = trace (snd ((if js_le ?n (last_irreversible_block_num i)
                       then request (GetBlock ?n) (\<lambda>tr. rpc_get_block env tr ?n)
                       else tryGetBlockHeaderState env ?n) ?s))"
    unfolding generateTapos_with_info [OF assms] Let_def
    by (rule trace_await_pure) (rule trace_merge_header)
  also have "\<dots> = trace ?s @ (if js_le ?n (last_irreversible_block_num i) then [GetBlock ?n]
                   else case rpc_get_block_header_state env (trace ?s) ?n of
                          Inr state \<Rightarrow> [GetBlockHeaderState ?n]
                        | Inl failure \<Rightarrow> [GetBlockHeaderState ?n, GetBlock ?n])"
    by (cases "js_le ?n (last_irreversible_block_num i)")
      (simp_all add: trace_request trace_tryGetBlockHeaderState)
  finally show ?thesis
    unfolding Let_def taposBlockNumber_def by simp
qed

text \<open>
  C6. With the chain info at hand (handed in, or fetched by a \<open>get_info\<close> that is
  answered), \<open>generateTapos\<close> takes as block number \<open>last_irreversible_block_num\<close>
  when \<open>useLastIrreversible\<close> is set and \<open>head_block_num - blocksBehind\<close> otherwise.
  When that number is at most \<open>last_irreversible_block_num\<close> its one block request is
  \<open>get_block\<close>; otherwise it is \<open>get_block_header_state\<close>, followed by \<open>get_block\<close> for
  the same number exactly when \<open>get_block_header_state\<close> fails.
\<close>

theorem generateTapos_block_selection:
  assumes "info = Some i \<or> (info = None \<and> rpc_get_info env (trace st) = Inr i)"
  shows
    "(let lib = last_irreversible_block_num i;
          n = (if flag uli then Some lib
               else case bb of None \<Rightarrow> None | Some b \<Rightarrow> Some (head_block_num i - b));
          tr = trace st @ info_trace info
      in trace (snd (generateTapos env info tx bb uli es st))
           = tr @ (if js_le n lib then [GetBlock n]
                   else case rpc_get_block_header_state env tr n of
                          Inr state \<Rightarrow> [GetBlockHeaderState n]
                        | Inl failure \<Rightarrow> [GetBlockHeaderState n, GetBlock n]))"
  using assms by (rule generateTapos_requests)

theorem generateTapos_block_selection_witness:
  "trace (snd (generateTapos demo_env None demo_tx (Some 3) None 30 demo_api))
     = [GetInfo, GetBlockHeaderState (Some 97), GetBlock (Some 97)]
   \<and> trace (snd (generateTapos demo_env (Some demo_info) demo_tx None (Some True) 30 demo_api))
     = [GetBlock (Some 90)]"
proof -
  have "rpc_get_info demo_env (trace demo_api) = Inr demo_info"
    by (simp add: demo_env_def)
  then have "trace (snd (generateTapos demo_env None demo_tx (Some 3) None 30 demo_api))
     = [GetInfo, GetBlockHeaderState (Some 97), GetBlock (Some 97)]"
    using generateTapos_block_selection
      [of None demo_info demo_env demo_api None "Some 3" demo_tx 30]
    by (simp add: Let_def flag_def js_le_def info_trace_def demo_defs)
  moreover have "trace (snd (generateTapos demo_env (Some demo_info) demo_tx None (Some True) 30 demo_api))
     = [GetBlock (Some 90)]"
    using generateTapos_block_selection
      [of "Some demo_info" demo_info demo_env demo_api "Some True" None demo_tx 30]
    by (simp add: Let_def flag_def js_le_def info_trace_def demo_defs)
  ultimately show ?thesis
    by simp
qed

section \<open>Proofs: \<open>getCachedAbi\<close>\<close>

text \<open>
  C8. From a state in which the account has no cached entry, and with the provider's
  answer decoding well: the first \<open>getCachedAbi(account)\<close> fetches once and stores
  the pair; the second returns that stored pair, issues nothing and changes nothing,
  so the two calls issue exactly one fetch. A following \<open>getCachedAbi(account, true)\<close>
  fetches again, and when that answer decodes too, the entry is overwritten with the
  pair just fetched.
\<close>

theorem getCachedAbi_fetch_once_then_reload:
  assumes "cachedAbis st a = None"
    and "abiProvider_getRawAbi env (trace st) a = Inr fetched"
    and "rawAbiToJson env (abi fetched) = Inr json"
  shows
    "(let c1 = \<lparr>rawAbi = abi fetched, structuredAbi = json\<rparr>;
          st1 = st\<lparr>trace := trace st @ [GetRawAbi a], cachedAbis := (cachedAbis st)(a \<mapsto> c1)\<rparr>
      in getCachedAbi env a False st = (Inr c1, st1)
         \<and> issued (getCachedAbi env a False) st = [GetRawAbi a]
         \<and> getCachedAbi env a False st1 = (Inr c1, st1)
         \<and> issued (getCachedAbi env a False) st1 = []
         \<and> issued (getCachedAbi env a True) st1 = [GetRawAbi a]
         \<and> (\<forall>fetched' json'.
               abiProvider_getRawAbi env (trace st1) a = Inr fetched'
               \<and> rawAbiToJson env (abi fetched') = Inr json'
               \<longrightarrow> getCachedAbi env a True st1
                     = (Inr \<lparr>rawAbi = abi fetched', structuredAbi = json'\<rparr>,
                        st1\<lparr>trace := trace st1 @ [GetRawAbi a],
                            cachedAbis := (cachedAbis st1)
                              (a \<mapsto> \<lparr>rawAbi = abi fetched', structuredAbi = json'\<rparr>)\<rparr>)))"
proof -
  let ?c1 = "\<lparr>rawAbi = abi fetched, structuredAbi = json\<rparr>"
  let ?st1 = "st\<lparr>trace := trace st @ [GetRawAbi a], cachedAbis := (cachedAbis st)(a \<mapsto> ?c1)\<rparr>"
  from assms have first: "getCachedAbi env a False st = (Inr ?c1, ?st1)"
    by (simp add: getCachedAbi_def await_def request_def settle_def resolve_def)
  have second: "getCachedAbi env a False ?st1 = (Inr ?c1, ?st1)"
    by (simp add: getCachedAbi_def resolve_def)
  have "trace (snd (getCachedAbi env a True ?st1)) = trace ?st1 @ [GetRawAbi a]"
    by (cases "abiProvider_getRawAbi env (trace ?st1) a";
        cases "rawAbiToJson env (abi (projr (abiProvider_getRawAbi env (trace ?st1) a)))")
      (simp_all add: getCachedAbi_def await_def request_def settle_def resolve_def)
  then have third: "issued (getCachedAbi env a True) ?st1 = [GetRawAbi a]"
    by (rule issued_eq)
  have fourth: "getCachedAbi env a True ?st1
        = (Inr \<lparr>rawAbi = abi fetched', structuredAbi = json'\<rparr>,
           ?st1\<lparr>trace := trace ?st1 @ [GetRawAbi a],
               cachedAbis := (cachedAbis ?st1)
                 (a \<mapsto> \<lparr>rawAbi = abi fetched', structuredAbi = json'\<rparr>)\<rparr>)"
    if "abiProvider_getRawAbi env (trace ?st1) a = Inr fetched'"
      and "rawAbiToJson env (abi fetched') = Inr json'" for fetched' json'
    using that
    by (simp add: getCachedAbi_def await_def request_def settle_def resolve_def)
  from first have once: "issued (getCachedAbi env a False) st = [GetRawAbi a]"
    by (simp add: issued_def)
  from second have none: "issued (getCachedAbi env a False) ?st1 = []"
    by (simp add: issued_def)
  from first once second none third fourth show ?thesis
    unfolding Let_def by blast
qed

theorem getCachedAbi_fetch_once_then_reload_witness:
  "issued (getCachedAbi demo_env ''eosio.token'' False) demo_api = [GetRawAbi ''eosio.token'']
   \<and> issued (getCachedAbi demo_env ''eosio.token'' False)
        (snd (getCachedAbi demo_env ''eosio.token'' False demo_api)) = []
   \<and> map_option rawAbi
        (cachedAbis (snd (getCachedAbi demo_env ''eosio.token'' False demo_api)) ''eosio.token'')
      = Some [0]
   \<and> map_option rawAbi
        (cachedAbis
           (snd (getCachedAbi demo_env ''eosio.token'' True
                   (snd (getCachedAbi demo_env ''eosio.token'' False demo_api))))
           ''eosio.token'')
      = Some [1]"
proof -
  let ?a = "''eosio.token''"
  let ?json = "\<lparr>abi_version = ''eosio::abi/1.1'', abi_actions = [(''transfer'', ''transfer'')]\<rparr>"
  let ?c1 = "\<lparr>rawAbi = [0], structuredAbi = ?json\<rparr>"
  let ?st1 = "demo_api\<lparr>trace := trace demo_api @ [GetRawAbi ?a],
                        cachedAbis := (cachedAbis demo_api)(?a \<mapsto> ?c1)\<rparr>"
  have h1: "cachedAbis demo_api ?a = None"
    by (simp add: demo_api_def)
  have h2: "abiProvider_getRawAbi demo_env (trace demo_api) ?a = Inr \<lparr>accountName = ?a, abi = [0]\<rparr>"
    by (simp add: demo_env_def demo_api_def)
  have h3: "rawAbiToJson demo_env (abi \<lparr>accountName = ?a, abi = [0]\<rparr>) = Inr ?json"
    by (simp add: rawAbiToJson_def demo_env_def)
  note run = getCachedAbi_fetch_once_then_reload [OF h1 h2 h3, unfolded Let_def, simplified]
  from run have first: "getCachedAbi demo_env ?a False demo_api = (Inr ?c1, ?st1)"
    and second: "getCachedAbi demo_env ?a False ?st1 = (Inr ?c1, ?st1)"
    by simp_all
  from run have reload: "\<And>fetched' json'.
      abiProvider_getRawAbi demo_env (trace ?st1) ?a = Inr fetched' \<Longrightarrow>
      rawAbiToJson demo_env (abi fetched') = Inr json' \<Longrightarrow>
      cachedAbis (snd (getCachedAbi demo_env ?a True ?st1)) ?a
        = Some \<lparr>rawAbi = abi fetched', structuredAbi = json'\<rparr>"
    by simp
  have "cachedAbis (snd (getCachedAbi demo_env ?a True ?st1)) ?a
        = Some \<lparr>rawAbi = [1], structuredAbi = ?json\<rparr>"
    using reload [of "\<lparr>accountName = ?a, abi = [1]\<rparr>" ?json]
    by (simp add: rawAbiToJson_def demo_env_def demo_api_def)
  with first second show ?thesis
    by (simp add: issued_def demo_api_def)
qed

section \<open>Proofs: the calls a run issues\<close>

lemma issuesD:
  assumes "issues rk Q m" and "api_requiredKeys st = rk"
  obtains evs where "trace (snd (m st)) = trace st @ evs" and "Q evs"
    and "api_requiredKeys (snd (m st)) = rk"
  using assms unfolding issues_def by blast

lemma issuesI:
  assumes "\<And>st. api_requiredKeys st = rk \<Longrightarrow>
             \<exists>evs. trace (snd (m st)) = trace st @ evs \<and> Q evs
                   \<and> api_requiredKeys (snd (m st)) = rk"
  shows "issues rk Q m"
  using assms unfolding issues_def by blast

lemma issues_weaken:
  assumes "issues rk Q m" and "\<And>evs. Q evs \<Longrightarrow> Q' evs"
  shows "issues rk Q' m"
  using assms unfolding issues_def by blast

lemma closed_Nil: "closed Q \<Longrightarrow> Q []"
  by (simp add: closed_def)

lemma closed_append: "closed Q \<Longrightarrow> Q xs \<Longrightarrow> Q ys \<Longrightarrow> Q (xs @ ys)"
  by (simp add: closed_def)

lemma issues_resolve: "closed Q \<Longrightarrow> issues rk Q (resolve x)"
  by (rule issuesI) (simp add: resolve_def closed_Nil)

lemma issues_reject: "closed Q \<Longrightarrow> issues rk Q (reject e)"
  by (rule issuesI) (simp add: reject_def closed_Nil)

lemma issues_settle: "closed Q \<Longrightarrow> issues rk Q (settle res)"
  by (rule issuesI) (simp add: settle_def closed_Nil)

lemma issues_request: "Q [ev] \<Longrightarrow> issues rk Q (request ev answer)"
  by (rule issuesI) (simp add: request_def)

lemma issues_if: "issues rk Q m \<Longrightarrow> issues rk Q m' \<Longrightarrow> issues rk Q (if b then m else m')"
  by simp

lemma issues_await:
  fixes m :: "('r, ('types, 'ty) Api) async"
  assumes c: "closed Q" and m: "issues rk Q m" and k: "\<And>x. issues rk Q (k x)"
  shows "issues rk Q (await m k)"
proof (rule issuesI)
  fix st :: "('types, 'ty) Api"
  assume rk: "api_requiredKeys st = rk"
  from m rk obtain evs1 where
    t1: "trace (snd (m st)) = trace st @ evs1" and q1: "Q evs1"
    and a1: "api_requiredKeys (snd (m st)) = rk"
    by (rule issuesD)
  obtain res s1 where ms: "m st = (res, s1)"
    by (cases "m st")
  show "\<exists>evs. trace (snd (await m k st)) = trace st @ evs \<and> Q evs
              \<and> api_requiredKeys (snd (await m k st)) = rk"
  proof (cases res)
    case (Inl e)
    with ms t1 q1 a1 show ?thesis
      by (auto simp: await_def)
  next
    case (Inr x)
    from a1 ms have "api_requiredKeys s1 = rk"
      by simp
    with k [of x] obtain evs2 where
      t2: "trace (snd (k x s1)) = trace s1 @ evs2" and q2: "Q evs2"
      and a2: "api_requiredKeys (snd (k x s1)) = rk"
      by (rule issuesD)
    from ms Inr have "await m k st = k x s1"
      by (simp add: await_def)
    moreover from t1 ms t2 have "trace (snd (k x s1)) = trace st @ (evs1 @ evs2)"
      by simp
    moreover from c q1 q2 have "Q (evs1 @ evs2)"
      by (rule closed_append)
    ultimately show ?thesis
      using a2 by metis
  qed
qed

lemma issues_promise_all_map:
  assumes c: "closed Q" and f: "\<And>x. issues rk Q (f x)"
    and b: "api_requiredKeys base = rk"
  shows "api_requiredKeys st = rk \<Longrightarrow>
         \<exists>evs. trace (snd (promise_all_map f base xs st)) = trace st @ evs \<and> Q evs
               \<and> api_requiredKeys (snd (promise_all_map f base xs st)) = rk"
proof (induction xs arbitrary: st)
  case Nil
  with c show ?case
    by (simp add: closed_Nil)
next
  case (Cons x xs)
  let ?b = "base\<lparr>trace := trace st\<rparr>"
  obtain res sx where fx: "f x ?b = (res, sx)"
    by (cases "f x ?b")
  from b have "api_requiredKeys ?b = rk"
    by simp
  with f [of x] obtain evs1 where
    t1: "trace (snd (f x ?b)) = trace ?b @ evs1" and q1: "Q evs1"
    by (rule issuesD)
  let ?next = "st\<lparr>trace := trace sx,
               cachedAbis := replay (cachedAbis base) (cachedAbis sx) (cachedAbis st),
               contracts := replay (contracts base) (contracts sx) (contracts st)\<rparr>"
  from Cons.prems have "api_requiredKeys ?next = rk"
    by simp
  from Cons.IH [OF this] obtain evs2 where
    t2: "trace (snd (promise_all_map f base xs ?next)) = trace ?next @ evs2" and q2: "Q evs2"
    and a2: "api_requiredKeys (snd (promise_all_map f base xs ?next)) = rk"
    by blast
  obtain ress st' where rest: "promise_all_map f base xs ?next = (ress, st')"
    by (cases "promise_all_map f base xs ?next")
  from fx rest have whole: "promise_all_map f base (x # xs) st = (res # ress, st')"
    by simp
  from t1 fx have "trace sx = trace st @ evs1"
    by simp
  with t2 rest have "trace st' = trace st @ (evs1 @ evs2)"
    by simp
  moreover from c q1 q2 have "Q (evs1 @ evs2)"
    by (rule closed_append)
  moreover from a2 rest have "api_requiredKeys st' = rk"
    by simp
  ultimately show ?case
    unfolding whole by (metis snd_conv)
qed

lemma snd_promise_all: "snd (promise_all f xs st) = snd (promise_all_map f st xs st)"
  by (simp add: promise_all_def split: prod.splits)

lemma issues_promise_all:
  fixes f :: "'x \<Rightarrow> ('r, ('types, 'ty) Api) async"
  assumes "closed Q" and "\<And>x. issues rk Q (f x)"
  shows "issues rk Q (promise_all f xs)"
proof (rule issuesI)
  fix st :: "('types, 'ty) Api"
  assume rk: "api_requiredKeys st = rk"
  from issues_promise_all_map
    [where f = f and Q = Q and rk = rk and base = st and st = st and xs = xs,
      OF assms(1) assms(2) rk rk]
  show "\<exists>evs. trace (snd (promise_all f xs st)) = trace st @ evs \<and> Q evs
              \<and> api_requiredKeys (snd (promise_all f xs st)) = rk"
    by (simp add: snd_promise_all)
qed

lemma issues_getCachedAbi:
  fixes env :: "('types, 'ty) env"
  assumes c: "closed Q" and q: "Q [GetRawAbi a]"
  shows "issues rk Q (getCachedAbi env a reload)"
proof (rule issuesI)
  fix st :: "('types, 'ty) Api"
  assume rk: "api_requiredKeys st = rk"
  show "\<exists>evs. trace (snd (getCachedAbi env a reload st)) = trace st @ evs \<and> Q evs
              \<and> api_requiredKeys (snd (getCachedAbi env a reload st)) = rk"
  proof (cases "if reload then None else cachedAbis st a")
    case (Some cached)
    with rk c show ?thesis
      by (simp add: getCachedAbi_def resolve_def closed_Nil)
  next
    case None
    have "trace (snd (getCachedAbi env a reload st)) = trace st @ [GetRawAbi a]
          \<and> api_requiredKeys (snd (getCachedAbi env a reload st)) = rk"
      using None rk
      by (cases "abiProvider_getRawAbi env (trace st) a";
          cases "rawAbiToJson env (abi (projr (abiProvider_getRawAbi env (trace st) a)))")
         (simp_all add: getCachedAbi_def await_def request_def settle_def resolve_def)
    with q show ?thesis
      by blast
  qed
qed

lemma issues_getAbi:
  fixes env :: "('types, 'ty) env"
  assumes "closed Q" and "Q [GetRawAbi a]"
  shows "issues rk Q (getAbi env a reload)"
  unfolding getAbi_def
  by (intro issues_await issues_getCachedAbi issues_resolve assms)

lemma issues_getTransactionAbis:
  fixes env :: "('types, 'ty) env"
  assumes c: "closed Q" and q: "\<And>ev. \<not> signing_event ev \<Longrightarrow> Q [ev]"
  shows "issues rk Q (getTransactionAbis env tx reload)"
proof (cases "actions tx")
  case None
  with c show ?thesis
    by (simp add: getTransactionAbis_def issues_reject)
next
  case (Some acts)
  have "issues rk Q (await (getCachedAbi env acc reload)
           (\<lambda>cached. resolve \<lparr>accountName = acc, abi = rawAbi cached\<rparr>))" for acc
    by (intro issues_await issues_getCachedAbi issues_resolve c q) simp
  with Some c show ?thesis
    by (simp add: getTransactionAbis_def Let_def issues_promise_all)
qed

lemma issues_getContract:
  fixes env :: "('types, 'ty) env"
  assumes c: "closed Q" and q: "Q [GetRawAbi a]"
  shows "issues rk Q (getContract env a reload)"
proof (rule issuesI)
  fix st :: "('types, 'ty) Api"
  assume rk: "api_requiredKeys st = rk"
  show "\<exists>evs. trace (snd (getContract env a reload st)) = trace st @ evs \<and> Q evs
              \<and> api_requiredKeys (snd (getContract env a reload st)) = rk"
  proof (cases "if reload then None else contracts st a")
    case (Some contract)
    with rk c show ?thesis
      by (simp add: getContract_def resolve_def closed_Nil)
  next
    case None
    let ?store = "\<lambda>tys acts (st' :: ('types, 'ty) Api).
        (let result = \<lparr>types = tys, contract_actions = acts\<rparr>
         in (Inr result :: error + ('types, 'ty) Contract,
             st'\<lparr>contracts := (contracts st')(a \<mapsto> result)\<rparr>))"
    have store: "issues rk Q (?store tys acts)" for tys acts
      by (rule issuesI) (simp add: Let_def closed_Nil [OF c])
    let ?build = "await (getAbi env a reload)
          (\<lambda>json. await (settle (ser_getTypesFromAbi env json))
          (\<lambda>tys. await (settle (action_types env tys (abi_actions json) []))
          (\<lambda>acts. ?store tys acts)))"
    have "issues rk Q ?build"
      by (intro issues_await issues_getAbi issues_settle c q store)
    moreover from None have "getContract env a reload st = ?build st"
      by (simp add: getContract_def)
    ultimately show ?thesis
      using rk by (simp add: issues_def)
  qed
qed

lemma issues_serializeActions:
  fixes env :: "('types, 'ty) env"
  assumes c: "closed Q" and q: "\<And>ev. \<not> signing_event ev \<Longrightarrow> Q [ev]"
  shows "issues rk Q (serializeActions env acts)"
proof (cases acts)
  case None
  with c show ?thesis
    by (simp add: serializeActions_def issues_reject)
next
  case (Some as)
  have "issues rk Q (await (getContract env (account a) False)
           (\<lambda>contract. settle (ser_serializeAction env contract a)))" for a
    by (intro issues_await issues_getContract issues_settle c q) simp
  with Some c show ?thesis
    by (simp add: serializeActions_def issues_promise_all)
qed

lemma issues_pushSignedTransaction:
  fixes env :: "('types, 'ty) env"
  assumes "\<And>ev. \<not> signing_event ev \<Longrightarrow> Q [ev]"
  shows "issues rk Q (pushSignedTransaction env args)"
  unfolding pushSignedTransaction_def Let_def
  by (rule issues_request) (simp add: assms)

lemma issues_pushCompressedSignedTransaction:
  fixes env :: "('types, 'ty) env"
  assumes "\<And>ev. \<not> signing_event ev \<Longrightarrow> Q [ev]"
  shows "issues rk Q (pushCompressedSignedTransaction env args)"
  unfolding pushCompressedSignedTransaction_def Let_def
  by (rule issues_request) (simp add: assms)

lemma issues_transact_finish:
  fixes env :: "('types, 'ty) env"
  assumes c: "closed Q" and q: "\<And>ev. \<not> signing_event ev \<Longrightarrow> Q [ev]"
    and sg: "\<And>tx' abis' stx scfd. issues rk Q (transact_sign env tx' abis' stx scfd)"
  shows "issues rk Q (transact_finish env tx cfg)"
  unfolding transact_finish_def Let_def
  by (intro issues_await issues_if issues_getTransactionAbis issues_serializeActions
      issues_settle issues_resolve issues_pushSignedTransaction
      issues_pushCompressedSignedTransaction c q sg)

lemma issues_tryGetBlockHeaderState:
  fixes env :: "('types, 'ty) env"
  assumes c: "closed Q" and q: "\<And>ev. \<not> signing_event ev \<Longrightarrow> Q [ev]"
  shows "issues rk Q (tryGetBlockHeaderState env n)"
proof (rule issuesI)
  fix st :: "('types, 'ty) Api"
  assume rk: "api_requiredKeys st = rk"
  have "Q [GetBlockHeaderState n]" and "Q [GetBlock n]"
    by (simp_all add: q)
  then have "Q ([GetBlockHeaderState n] @ [GetBlock n])"
    by (rule closed_append [OF c])
  with \<open>Q [GetBlockHeaderState n]\<close> rk
  show "\<exists>evs. trace (snd (tryGetBlockHeaderState env n st)) = trace st @ evs \<and> Q evs
              \<and> api_requiredKeys (snd (tryGetBlockHeaderState env n st)) = rk"
    by (cases "rpc_get_block_header_state env (trace st) n")
      (simp_all add: tryGetBlockHeaderState_def request_def)
qed

lemma issues_generateTapos:
  fixes env :: "('types, 'ty) env"
  assumes c: "closed Q" and q: "\<And>ev. \<not> signing_event ev \<Longrightarrow> Q [ev]"
  shows "issues rk Q (generateTapos env info tx bb uli es)"
proof -
  have "issues rk Q (case info of None \<Rightarrow> request GetInfo (rpc_get_info env) | Some i \<Rightarrow> resolve i)"
    by (cases info) (simp_all add: issues_request issues_resolve c q)
  then show ?thesis
    unfolding generateTapos_def Let_def
    by (intro issues_await issues_if issues_request issues_tryGetBlockHeaderState
        issues_settle issues_resolve c q) simp_all
qed

lemma issues_transact_tapos:
  fixes env :: "('types, 'ty) env"
  assumes c: "closed Q" and q: "\<And>ev. \<not> signing_event ev \<Longrightarrow> Q [ev]"
  shows "issues rk Q (transact_tapos env info tx cfg)"
proof -
  have "issues rk Q (case expireSeconds cfg of
                 None \<Rightarrow> resolve tx
               | Some es \<Rightarrow>
                   if (blocksBehind cfg \<noteq> None \<or> flag (useLastIrreversible cfg)) \<and> es \<noteq> 0
                   then generateTapos env info tx (blocksBehind cfg) (useLastIrreversible cfg) es
                   else resolve tx)"
    by (cases "expireSeconds cfg") (simp_all add: issues_generateTapos issues_resolve c q)
  then show ?thesis
    unfolding transact_tapos_def
    by (intro issues_await issues_if issues_reject issues_resolve c)
qed

lemma issues_transact_chainId:
  fixes env :: "('types, 'ty) env"
  assumes c: "closed Q" and q: "\<And>ev. \<not> signing_event ev \<Longrightarrow> Q [ev]"
  shows "issues rk Q (transact_chainId env)"
proof (rule issuesI)
  fix st :: "('types, 'ty) Api"
  assume rk: "api_requiredKeys st = rk"
  have "Q [GetInfo]"
    by (simp add: q)
  with rk closed_Nil [OF c]
  show "\<exists>evs. trace (snd (transact_chainId env st)) = trace st @ evs \<and> Q evs
              \<and> api_requiredKeys (snd (transact_chainId env st)) = rk"
    by (cases "rpc_get_info env (trace st)")
      (auto simp: transact_chainId_def resolve_def await_def request_def)
qed

lemma issues_transact:
  fixes env :: "('types, 'ty) env"
  assumes c: "closed Q" and q: "\<And>ev. \<not> signing_event ev \<Longrightarrow> Q [ev]"
    and sg: "\<And>tx' abis' stx scfd. issues rk Q (transact_sign env tx' abis' stx scfd)"
  shows "issues rk Q (transact env tx cfg)"
  unfolding transact_def
  by (intro issues_if issues_reject issues_await issues_transact_chainId issues_transact_tapos
      issues_transact_finish c q sg)

section \<open>Proofs: the keys \<open>transact\<close> signs with\<close>

lemma closed_signs_with: "closed (signs_with env rk)"
  by (cases rk) (fastforce simp: closed_def signs_with_def)+

lemma signs_with_other: "\<not> signing_event ev \<Longrightarrow> signs_with env rk [ev]"
  by (cases ev; cases rk) (simp_all add: signs_with_def)

lemma issues_transact_sign:
  fixes env :: "('types, 'ty) env"
  shows "issues rk (signs_with env rk) (transact_sign env tx abis' stx scfd)"
proof (rule issuesI)
  fix st :: "('types, 'ty) Api"
  assume rk: "api_requiredKeys st = rk"
  let ?run = "transact_sign env tx abis' stx scfd st"
  let ?goal = "\<exists>evs. trace (snd ?run) = trace st @ evs \<and> signs_with env rk evs
                 \<and> api_requiredKeys (snd ?run) = rk"
  show ?goal
  proof (cases "signatureProvider_getAvailableKeys env (trace st)")
    case (Inl e)
    then have "trace (snd ?run) = trace st @ [GetAvailableKeys]"
      and "api_requiredKeys (snd ?run) = rk"
      using rk by (simp_all add: transact_sign_def await_def request_def)
    moreover have "signs_with env rk [GetAvailableKeys]"
      by (cases rk) (simp_all add: signs_with_def)
    ultimately show ?thesis
      by blast
  next
    case avail: (Inr available)
    show ?thesis
    proof (cases rk)
      case (Some keys)
      let ?args = "\<lparr>sp_chainId = chainId st, sp_requiredKeys = keys,
                     sp_serializedTransaction = stx, sp_serializedContextFreeData = scfd,
                     sp_abis = abis'\<rparr>"
      from avail Some rk have "trace (snd ?run) = trace st @ [GetAvailableKeys, Sign ?args]"
        and "api_requiredKeys (snd ?run) = rk"
        by (simp_all add: transact_sign_def await_def request_def resolve_def Let_def)
      moreover from Some have "signs_with env rk [GetAvailableKeys, Sign ?args]"
        by (simp add: signs_with_def)
      ultimately show ?thesis
        by blast
    next
      case None
      let ?a = "\<lparr>transaction = tx, availableKeys = available\<rparr>"
      let ?tr = "trace st @ [GetAvailableKeys]"
      show ?thesis
      proof (cases "authorityProvider_getRequiredKeys env ?tr ?a")
        case (Inl e)
        with avail None rk
        have "trace (snd ?run) = trace st @ [GetAvailableKeys, GetRequiredKeys ?a]"
          and "api_requiredKeys (snd ?run) = rk"
          by (simp_all add: transact_sign_def await_def request_def)
        moreover from None have "signs_with env rk [GetAvailableKeys, GetRequiredKeys ?a]"
          by (simp add: signs_with_def)
        ultimately show ?thesis
          by blast
      next
        case (Inr keys)
        let ?args = "\<lparr>sp_chainId = chainId st, sp_requiredKeys = keys,
                       sp_serializedTransaction = stx, sp_serializedContextFreeData = scfd,
                       sp_abis = abis'\<rparr>"
        from Inr avail None rk
        have "trace (snd ?run) = trace st @ [GetAvailableKeys, GetRequiredKeys ?a, Sign ?args]"
          and "api_requiredKeys (snd ?run) = rk"
          by (simp_all add: transact_sign_def await_def request_def Let_def)
        moreover from None Inr
        have "signs_with env rk [GetAvailableKeys, GetRequiredKeys ?a, Sign ?args]"
          by (auto simp: signs_with_def)
        ultimately show ?thesis
          by blast
      qed
    qed
  qed
qed

subsection \<open>The calls before and after the signing step\<close>

lemma closed_other_calls: "closed other_calls"
  by (simp add: closed_def other_calls_def)

lemma other_calls_single: "\<not> signing_event ev \<Longrightarrow> other_calls [ev]"
  by (simp add: other_calls_def)

lemma reachesI:
  assumes "\<And>st. api_requiredKeys st = rk \<Longrightarrow>
             \<exists>pre s'. trace s' = trace st @ pre \<and> other_calls pre \<and> api_requiredKeys s' = rk
                  \<and> ((\<exists>e. m st = (Inl e, s')) \<or> (\<exists>x. m st = step x s'))"
  shows "reaches rk step m"
  using assms unfolding reaches_def by blast

lemma reachesD:
  assumes "reaches rk step m" and "api_requiredKeys st = rk"
  obtains pre s' where "trace s' = trace st @ pre" and "other_calls pre"
    and "api_requiredKeys s' = rk"
    and "(\<exists>e. m st = (Inl e, s')) \<or> (\<exists>x. m st = step x s')"
  using assms unfolding reaches_def by blast

lemma reaches_step:
  fixes step :: "'x \<Rightarrow> ('r, ('types, 'ty) Api) async"
  shows "reaches rk step (step x)"
proof (rule reachesI)
  fix st :: "('types, 'ty) Api"
  assume "api_requiredKeys st = rk"
  then have "trace st = trace st @ [] \<and> other_calls [] \<and> api_requiredKeys st = rk
      \<and> ((\<exists>e. step x st = (Inl e, st)) \<or> (\<exists>y. step x st = step y st))"
    by (auto simp: other_calls_def)
  then show "\<exists>pre s'. trace s' = trace st @ pre \<and> other_calls pre \<and> api_requiredKeys s' = rk
                  \<and> ((\<exists>e. step x st = (Inl e, s')) \<or> (\<exists>y. step x st = step y s'))"
    by blast
qed

lemma reaches_reject:
  fixes step :: "'x \<Rightarrow> ('r, ('types, 'ty) Api) async"
  shows "reaches rk step (reject e)"
proof (rule reachesI)
  fix st :: "('types, 'ty) Api"
  assume "api_requiredKeys st = rk"
  then have "trace st = trace st @ [] \<and> other_calls [] \<and> api_requiredKeys st = rk
      \<and> ((\<exists>e'. reject e st = (Inl e', st)) \<or> (\<exists>y. reject e st = step y st))"
    by (auto simp: other_calls_def reject_def)
  then show "\<exists>pre s'. trace s' = trace st @ pre \<and> other_calls pre \<and> api_requiredKeys s' = rk
                  \<and> ((\<exists>e'. reject e st = (Inl e', s')) \<or> (\<exists>y. reject e st = step y s'))"
    by blast
qed

lemma reaches_if: "reaches rk step m \<Longrightarrow> reaches rk step m' \<Longrightarrow> reaches rk step (if b then m else m')"
  by simp

lemma reaches_await:
  fixes m :: "('r, ('types, 'ty) Api) async"
  assumes m: "issues rk other_calls m" and k: "\<And>x. reaches rk step (k x)"
  shows "reaches rk step (await m k)"
proof (rule reachesI)
  fix st :: "('types, 'ty) Api"
  assume rk: "api_requiredKeys st = rk"
  from m rk obtain evs1 where
    t1: "trace (snd (m st)) = trace st @ evs1" and q1: "other_calls evs1"
    and a1: "api_requiredKeys (snd (m st)) = rk"
    by (rule issuesD)
  obtain res s1 where ms: "m st = (res, s1)"
    by (cases "m st")
  show "\<exists>pre s'. trace s' = trace st @ pre \<and> other_calls pre \<and> api_requiredKeys s' = rk
          \<and> ((\<exists>e. await m k st = (Inl e, s')) \<or> (\<exists>x. await m k st = step x s'))"
  proof (cases res)
    case (Inl e)
    with ms have "await m k st = (Inl e, s1)"
      by (simp add: await_def)
    with ms t1 q1 a1 show ?thesis
      by auto
  next
    case (Inr x)
    from a1 ms have "api_requiredKeys s1 = rk"
      by simp
    with k [of x] obtain pre2 s' where
      t2: "trace s' = trace s1 @ pre2" and q2: "other_calls pre2"
      and a2: "api_requiredKeys s' = rk"
      and r2: "(\<exists>e. k x s1 = (Inl e, s')) \<or> (\<exists>y. k x s1 = step y s')"
      by (rule reachesD)
    from ms Inr have "await m k st = k x s1"
      by (simp add: await_def)
    moreover from t1 ms t2 have "trace s' = trace st @ (evs1 @ pre2)"
      by simp
    moreover from q1 q2 have "other_calls (evs1 @ pre2)"
      by (simp add: other_calls_def)
    ultimately show ?thesis
      using a2 r2 by metis
  qed
qed

lemma transact_finish_sign_and_push:
  "transact_finish env tx cfg =
     await (getTransactionAbis env tx False)
       (\<lambda>abis'. await (serializeActions env
                         (Some (case context_free_actions tx of None \<Rightarrow> [] | Some cfa \<Rightarrow> cfa)))
       (\<lambda>cfa. await (serializeActions env (actions tx))
       (\<lambda>acts. await (settle (serializeTransaction env
                                (tx\<lparr>context_free_actions := Some cfa, actions := Some acts\<rparr>)))
       (\<lambda>stx. sign_and_push env cfg
                (tx\<lparr>context_free_actions := Some cfa, actions := Some acts\<rparr>, abis', stx)))))"
  by (simp add: transact_finish_def sign_and_push_def Let_def)

lemma reaches_transact_finish:
  fixes env :: "('types, 'ty) env"
  shows "reaches rk (sign_and_push env cfg) (transact_finish env tx cfg)"
  unfolding transact_finish_sign_and_push
  by (intro reaches_await reaches_step issues_getTransactionAbis issues_serializeActions
      issues_settle closed_other_calls other_calls_single)

lemma reaches_transact:
  fixes env :: "('types, 'ty) env"
  shows "reaches rk (sign_and_push env cfg) (transact env tx cfg)"
  unfolding transact_def
  by (intro reaches_if reaches_reject reaches_await issues_transact_chainId
      issues_transact_tapos reaches_transact_finish closed_other_calls other_calls_single)

subsection \<open>The calls of the signing step\<close>

lemma transact_sign_log:
  fixes env :: "('types, 'ty) env" and st :: "('types, 'ty) Api"
  fixes run
  assumes run_def: "run = transact_sign env tx abis' stx scfd st"
  shows "\<exists>evs. trace (snd run) = trace st @ GetAvailableKeys # evs
           \<and> GetAvailableKeys \<notin> set evs
           \<and> api_requiredKeys (snd run) = api_requiredKeys st
           \<and> sign_requests env (api_requiredKeys st) (trace st) evs
           \<and> ((\<exists>r. fst run = Inr r) \<longrightarrow> (\<exists>args. Sign args \<in> set evs))"
proof (cases "signatureProvider_getAvailableKeys env (trace st)")
  case (Inl e)
  then have "trace (snd run) = trace st @ GetAvailableKeys # []"
    and "api_requiredKeys (snd run) = api_requiredKeys st"
    and "fst run = Inl e"
    by (simp_all add: run_def transact_sign_def await_def request_def)
  moreover from Inl have "sign_requests env (api_requiredKeys st) (trace st) []"
    by (simp add: sign_requests_def)
  ultimately show ?thesis
    by (intro exI [of _ "[]"]) simp
next
  case avail: (Inr available)
  show ?thesis
  proof (cases "api_requiredKeys st")
    case (Some keys)
    let ?args = "\<lparr>sp_chainId = chainId st, sp_requiredKeys = keys,
                   sp_serializedTransaction = stx, sp_serializedContextFreeData = scfd,
                   sp_abis = abis'\<rparr>"
    from avail Some have "trace (snd run) = trace st @ GetAvailableKeys # [Sign ?args]"
      and "api_requiredKeys (snd run) = api_requiredKeys st"
      by (simp_all add: run_def transact_sign_def await_def request_def resolve_def Let_def)
    moreover from Some have "sign_requests env (api_requiredKeys st) (trace st) [Sign ?args]"
      by (simp add: sign_requests_def)
    ultimately show ?thesis
      by (intro exI [of _ "[Sign ?args]"]) simp
  next
    case None
    let ?a = "\<lparr>transaction = tx, availableKeys = available\<rparr>"
    let ?tr = "trace st @ [GetAvailableKeys]"
    show ?thesis
    proof (cases "authorityProvider_getRequiredKeys env ?tr ?a")
      case (Inl e)
      with avail None
      have "trace (snd run) = trace st @ GetAvailableKeys # [GetRequiredKeys ?a]"
        and "api_requiredKeys (snd run) = api_requiredKeys st"
        and "fst run = Inl e"
        by (simp_all add: run_def transact_sign_def await_def request_def)
      moreover from None avail Inl
      have "sign_requests env (api_requiredKeys st) (trace st) [GetRequiredKeys ?a]"
        by (simp add: sign_requests_def)
      ultimately show ?thesis
        by (intro exI [of _ "[GetRequiredKeys ?a]"]) simp
    next
      case (Inr keys)
      let ?args = "\<lparr>sp_chainId = chainId st, sp_requiredKeys = keys,
                     sp_serializedTransaction = stx, sp_serializedContextFreeData = scfd,
                     sp_abis = abis'\<rparr>"
      from Inr avail None
      have "trace (snd run) = trace st @ GetAvailableKeys # [GetRequiredKeys ?a, Sign ?args]"
        and "api_requiredKeys (snd run) = api_requiredKeys st"
        by (simp_all add: run_def transact_sign_def await_def request_def Let_def)
      moreover from None avail Inr
      have "sign_requests env (api_requiredKeys st) (trace st) [GetRequiredKeys ?a, Sign ?args]"
        by (simp add: sign_requests_def)
      ultimately show ?thesis
        by (intro exI [of _ "[GetRequiredKeys ?a, Sign ?args]"]) simp
    qed
  qed
qed

lemma other_calls_no_GetAvailableKeys: "other_calls evs \<Longrightarrow> GetAvailableKeys \<notin> set evs"
  by (auto simp: other_calls_def list_all_iff)

lemma issues_push:
  fixes env :: "('types, 'ty) env"
  shows "issues rk other_calls
           (if (case broadcast cfg of None \<Rightarrow> True | Some b \<Rightarrow> b)
            then await (if flag (compression cfg)
                        then pushCompressedSignedTransaction env pushTransactionArgs
                        else pushSignedTransaction env pushTransactionArgs)
                   (\<lambda>receipt. resolve (Pushed receipt))
            else resolve (Unsent pushTransactionArgs))"
  by (intro issues_if issues_await issues_pushSignedTransaction
      issues_pushCompressedSignedTransaction issues_resolve closed_other_calls
      other_calls_single)

lemma sign_and_push_unsigned:
  fixes env :: "('types, 'ty) env" and sa :: "('types, 'ty) Api"
  assumes "sign cfg = Some False"
  shows "\<exists>post. trace (snd (sign_and_push env cfg x sa)) = trace sa @ post \<and> other_calls post"
proof -
  obtain tx' abis' stx where x: "x = (tx', abis', stx)"
    by (cases x)
  let ?push = "\<lambda>pushTransactionArgs.
              if (case broadcast cfg of None \<Rightarrow> True | Some b \<Rightarrow> b)
              then await (if flag (compression cfg)
                          then pushCompressedSignedTransaction env pushTransactionArgs
                          else pushSignedTransaction env pushTransactionArgs)
                     (\<lambda>receipt. resolve (Pushed receipt))
              else resolve (Unsent pushTransactionArgs)"
  let ?unsigned = "\<lparr>signatures = [], push_compression = None, serializedTransaction = stx,
                     serializedContextFreeData =
                       serializeContextFreeData env (context_free_data tx')\<rparr>"
  have whole: "sign_and_push env cfg x sa = ?push ?unsigned sa"
    unfolding sign_and_push_def Let_def x prod.case using assms by simp
  have "issues (api_requiredKeys sa) other_calls (?push ?unsigned)"
    by (rule issues_push)
  then obtain post where "trace (snd (?push ?unsigned sa)) = trace sa @ post"
    and "other_calls post"
    by (rule issuesD) simp
  with whole show ?thesis
    by auto
qed

lemma sign_and_push_signed:
  fixes env :: "('types, 'ty) env" and sa :: "('types, 'ty) Api"
  assumes "sign cfg \<noteq> Some False"
  shows "\<exists>evs post. trace (snd (sign_and_push env cfg x sa))
                       = trace sa @ GetAvailableKeys # evs @ post
           \<and> GetAvailableKeys \<notin> set (evs @ post)
           \<and> sign_requests env (api_requiredKeys sa) (trace sa) evs
           \<and> ((\<exists>r. fst (sign_and_push env cfg x sa) = Inr r) \<longrightarrow> (\<exists>args. Sign args \<in> set evs))"
proof -
  obtain tx' abis' stx where x: "x = (tx', abis', stx)"
    by (cases x)
  let ?scfd = "serializeContextFreeData env (context_free_data tx')"
  let ?push = "\<lambda>pushTransactionArgs.
              if (case broadcast cfg of None \<Rightarrow> True | Some b \<Rightarrow> b)
              then await (if flag (compression cfg)
                          then pushCompressedSignedTransaction env pushTransactionArgs
                          else pushSignedTransaction env pushTransactionArgs)
                     (\<lambda>receipt. resolve (Pushed receipt))
              else resolve (Unsent pushTransactionArgs)"
  from assms have on: "(case sign cfg of None \<Rightarrow> True | Some b \<Rightarrow> b)"
    by (cases "sign cfg") simp_all
  have whole: "sign_and_push env cfg x sa = await (transact_sign env tx' abis' stx ?scfd) ?push sa"
    unfolding sign_and_push_def Let_def x prod.case using on by simp
  obtain res s1 where run: "transact_sign env tx' abis' stx ?scfd sa = (res, s1)"
    by (cases "transact_sign env tx' abis' stx ?scfd sa")
  from transact_sign_log [OF run [symmetric]]
  obtain evs where t1: "trace s1 = trace sa @ GetAvailableKeys # evs"
    and n1: "GetAvailableKeys \<notin> set evs"
    and a1: "api_requiredKeys s1 = api_requiredKeys sa"
    and s1: "sign_requests env (api_requiredKeys sa) (trace sa) evs"
    and r1: "(\<exists>r. res = Inr r) \<longrightarrow> (\<exists>args. Sign args \<in> set evs)"
    by fastforce
  show ?thesis
  proof (cases res)
    case (Inl e)
    with run whole have "sign_and_push env cfg x sa = (Inl e, s1)"
      by (simp add: await_def)
    with t1 n1 s1 show ?thesis
      by (intro exI [of _ evs] exI [of _ "[]"]) simp
  next
    case (Inr pta)
    with run whole have eq: "sign_and_push env cfg x sa = ?push pta s1"
      by (simp add: await_def)
    have "issues (api_requiredKeys s1) other_calls (?push pta)"
      by (rule issues_push)
    then obtain post where t2: "trace (snd (?push pta s1)) = trace s1 @ post"
      and o2: "other_calls post"
      by (rule issuesD) simp
    from o2 have "GetAvailableKeys \<notin> set post"
      by (rule other_calls_no_GetAvailableKeys)
    moreover from eq t1 t2
    have "trace (snd (sign_and_push env cfg x sa)) = trace sa @ GetAvailableKeys # evs @ post"
      by simp
    moreover from r1 Inr have "\<exists>args. Sign args \<in> set evs"
      by simp
    ultimately show ?thesis
      using n1 s1 by (intro exI [of _ evs] exI [of _ post]) simp
  qed
qed

lemma transact_log:
  fixes env :: "('types, 'ty) env" and st :: "('types, 'ty) Api"
  shows "(other_calls (issued (transact env tx cfg) st)
            \<and> (sign cfg = Some False \<or> (\<exists>e. fst (transact env tx cfg st) = Inl e)))
         \<or> (\<exists>pre evs post.
               issued (transact env tx cfg) st = pre @ GetAvailableKeys # evs @ post
               \<and> GetAvailableKeys \<notin> set pre \<and> GetAvailableKeys \<notin> set (evs @ post)
               \<and> sign_requests env (api_requiredKeys st) (trace st @ pre) evs
               \<and> ((\<exists>r. fst (transact env tx cfg st) = Inr r) \<longrightarrow> (\<exists>args. Sign args \<in> set evs)))"
proof -
  have "reaches (api_requiredKeys st) (sign_and_push env cfg) (transact env tx cfg)"
    by (rule reaches_transact)
  then obtain pre s' where t: "trace s' = trace st @ pre" and o: "other_calls pre"
    and a: "api_requiredKeys s' = api_requiredKeys st"
    and r: "(\<exists>e. transact env tx cfg st = (Inl e, s'))
            \<or> (\<exists>x. transact env tx cfg st = sign_and_push env cfg x s')"
    by (rule reachesD) simp
  from r show ?thesis
  proof
    assume "\<exists>e. transact env tx cfg st = (Inl e, s')"
    with t o show ?thesis
      by (auto simp: issued_def)
  next
    assume "\<exists>x. transact env tx cfg st = sign_and_push env cfg x s'"
    then obtain x where run: "transact env tx cfg st = sign_and_push env cfg x s'" ..
    show ?thesis
    proof (cases "sign cfg = Some False")
      case True
      then obtain post where "trace (snd (sign_and_push env cfg x s')) = trace s' @ post"
        and "other_calls post"
        using sign_and_push_unsigned by blast
      with run t o have "issued (transact env tx cfg) st = pre @ post"
        and "other_calls (pre @ post)"
        by (simp_all add: issued_def other_calls_def)
      with True show ?thesis
        by simp
    next
      case False
      from sign_and_push_signed [OF False, of env x s']
      obtain evs post where
        t2: "trace (snd (sign_and_push env cfg x s')) = trace s' @ GetAvailableKeys # evs @ post"
        and n2: "GetAvailableKeys \<notin> set (evs @ post)"
        and s2: "sign_requests env (api_requiredKeys s') (trace s') evs"
        and r2: "(\<exists>r. fst (sign_and_push env cfg x s') = Inr r) \<longrightarrow> (\<exists>args. Sign args \<in> set evs)"
        by blast
      from run t t2 have "issued (transact env tx cfg) st = pre @ GetAvailableKeys # evs @ post"
        by (simp add: issued_def)
      moreover from o have "GetAvailableKeys \<notin> set pre"
        by (rule other_calls_no_GetAvailableKeys)
      moreover from s2 a t
      have "sign_requests env (api_requiredKeys st) (trace st @ pre) evs"
        by simp
      moreover from r2 run
      have "(\<exists>r. fst (transact env tx cfg st) = Inr r) \<longrightarrow> (\<exists>args. Sign args \<in> set evs)"
        by simp
      ultimately show ?thesis
        using n2 by blast
    qed
  qed
qed

lemma transact_asks_then_signs:
  fixes env :: "('types, 'ty) env" and st :: "('types, 'ty) Api"
  assumes "issued (transact env tx cfg) st = pre @ GetAvailableKeys # rest"
  shows "\<exists>evs post. rest = evs @ post
           \<and> sign_requests env (api_requiredKeys st) (trace st @ pre) evs"
  using transact_log [of env tx cfg st]
proof
  assume "other_calls (issued (transact env tx cfg) st)
            \<and> (sign cfg = Some False \<or> (\<exists>e. fst (transact env tx cfg st) = Inl e))"
  then have "GetAvailableKeys \<notin> set (issued (transact env tx cfg) st)"
    by (simp add: other_calls_no_GetAvailableKeys)
  with assms show ?thesis
    by simp
next
  assume "\<exists>pre evs post.
               issued (transact env tx cfg) st = pre @ GetAvailableKeys # evs @ post
               \<and> GetAvailableKeys \<notin> set pre \<and> GetAvailableKeys \<notin> set (evs @ post)
               \<and> sign_requests env (api_requiredKeys st) (trace st @ pre) evs
               \<and> ((\<exists>r. fst (transact env tx cfg st) = Inr r) \<longrightarrow> (\<exists>args. Sign args \<in> set evs))"
  then obtain pre0 evs post where
    i: "issued (transact env tx cfg) st = pre0 @ GetAvailableKeys # evs @ post"
    and n: "GetAvailableKeys \<notin> set pre0" "GetAvailableKeys \<notin> set (evs @ post)"
    and s: "sign_requests env (api_requiredKeys st) (trace st @ pre0) evs"
    by blast
  from i assms have "pre0 @ GetAvailableKeys # (evs @ post) = pre @ GetAvailableKeys # rest"
    by simp
  with n have "pre0 = pre \<and> evs @ post = rest"
    by (simp add: append_Cons_eq_iff)
  with s show ?thesis
    by blast
qed

lemma transact_signed:
  fixes env :: "('types, 'ty) env" and st :: "('types, 'ty) Api"
  assumes "sign cfg \<noteq> Some False" and "fst (transact env tx cfg st) = Inr res"
  shows "\<exists>args. Sign args \<in> set (issued (transact env tx cfg) st)"
  using transact_log [of env tx cfg st] assms by auto

lemma sign_requests_override:
  assumes "sign_requests env (Some override) tr evs"
    and "signatureProvider_getAvailableKeys env tr = Inr available"
  obtains args where "evs = [Sign args]" and "sp_requiredKeys args = override"
  using assms unfolding sign_requests_def by auto

lemma sign_requests_authority:
  assumes "sign_requests env None tr evs"
    and "signatureProvider_getAvailableKeys env tr = Inr available"
  shows "\<exists>a more. evs = GetRequiredKeys a # more \<and> availableKeys a = available
           \<and> (\<forall>answered.
                 authorityProvider_getRequiredKeys env (tr @ [GetAvailableKeys]) a = Inr answered
                 \<longrightarrow> (\<exists>args. more = [Sign args] \<and> sp_requiredKeys args = answered))"
  using assms unfolding sign_requests_def by simp

text \<open>
  C9. \<open>transact\<close> never reads \<open>requiredKeys\<close> of its configuration: whatever is put
  there, the run is the same. The keys it signs with are those of the Api. In every
  run of \<open>transact\<close>, every signing request carries the keys the Api was constructed
  with when there are such, and then the authority provider is not asked; otherwise
  it carries the keys the authority provider's \<open>getRequiredKeys\<close> answered in that
  run. When the Api was constructed with keys, the call that follows an answered
  \<open>getAvailableKeys\<close> is the signing request with these keys. When it was not, the call
  that follows an answered \<open>getAvailableKeys\<close> is \<open>getRequiredKeys\<close> for the available
  keys, and when that is answered the next call is the signing request with the keys
  of the answer. A run that resolves, with signing not switched off, has issued a
  signing request.
\<close>

theorem transact_ignores_config_requiredKeys:
  fixes env :: "('types, 'ty) env" and st :: "('types, 'ty) Api"
  shows
  "transact env tx (cfg\<lparr>requiredKeys := keys\<rparr>) = transact env tx cfg
   \<and> signs_with env (api_requiredKeys st) (issued (transact env tx cfg) st)
   \<and> (api_requiredKeys st = Some override
        \<and> issued (transact env tx cfg) st = pre @ GetAvailableKeys # rest
        \<and> signatureProvider_getAvailableKeys env (trace st @ pre) = Inr available \<longrightarrow>
      (\<exists>args post. rest = Sign args # post \<and> sp_requiredKeys args = override))
   \<and> (api_requiredKeys st = None
        \<and> issued (transact env tx cfg) st = pre @ GetAvailableKeys # rest
        \<and> signatureProvider_getAvailableKeys env (trace st @ pre) = Inr available \<longrightarrow>
      (\<exists>a post. rest = GetRequiredKeys a # post \<and> availableKeys a = available
         \<and> (\<forall>answered.
               authorityProvider_getRequiredKeys env (trace st @ pre @ [GetAvailableKeys]) a
                 = Inr answered \<longrightarrow>
               (\<exists>args post'. post = Sign args # post' \<and> sp_requiredKeys args = answered))))
   \<and> (sign cfg \<noteq> Some False \<and> fst (transact env tx cfg st) = Inr res \<longrightarrow>
      (\<exists>args. Sign args \<in> set (issued (transact env tx cfg) st)))"
proof -
  let ?cfg = "cfg\<lparr>requiredKeys := keys\<rparr>"
  let ?log = "issued (transact env tx cfg) st"
  have read: "broadcast ?cfg = broadcast cfg" "sign ?cfg = sign cfg"
    "compression ?cfg = compression cfg" "blocksBehind ?cfg = blocksBehind cfg"
    "useLastIrreversible ?cfg = useLastIrreversible cfg" "expireSeconds ?cfg = expireSeconds cfg"
    by simp_all
  have same: "transact env tx ?cfg = transact env tx cfg"
    unfolding transact_def transact_tapos_def transact_finish_def read ..
  have "issues (api_requiredKeys st) (signs_with env (api_requiredKeys st)) (transact env tx cfg)"
    by (intro issues_transact closed_signs_with signs_with_other issues_transact_sign)
  then obtain evs where "trace (snd (transact env tx cfg st)) = trace st @ evs"
    and "signs_with env (api_requiredKeys st) evs"
    by (rule issuesD) simp
  then have every: "signs_with env (api_requiredKeys st) ?log"
    by (simp add: issued_eq)
  have override: "\<exists>args post. rest = Sign args # post \<and> sp_requiredKeys args = override"
    if rk: "api_requiredKeys st = Some override"
      and log: "?log = pre @ GetAvailableKeys # rest"
      and avail: "signatureProvider_getAvailableKeys env (trace st @ pre) = Inr available"
  proof -
    from transact_asks_then_signs [OF log] rk obtain evs post where "rest = evs @ post"
      and "sign_requests env (Some override) (trace st @ pre) evs"
      by auto
    with avail show ?thesis
      by (auto elim: sign_requests_override)
  qed
  have authority: "\<exists>a post. rest = GetRequiredKeys a # post \<and> availableKeys a = available
         \<and> (\<forall>answered.
               authorityProvider_getRequiredKeys env (trace st @ pre @ [GetAvailableKeys]) a
                 = Inr answered \<longrightarrow>
               (\<exists>args post'. post = Sign args # post' \<and> sp_requiredKeys args = answered))"
    if rk: "api_requiredKeys st = None"
      and log: "?log = pre @ GetAvailableKeys # rest"
      and avail: "signatureProvider_getAvailableKeys env (trace st @ pre) = Inr available"
  proof -
    from transact_asks_then_signs [OF log] rk obtain evs post where rest: "rest = evs @ post"
      and "sign_requests env None (trace st @ pre) evs"
      by auto
    from sign_requests_authority [OF this(2) avail]
    obtain a more where evs: "evs = GetRequiredKeys a # more"
      and a: "availableKeys a = available"
      and more: "\<forall>answered.
           authorityProvider_getRequiredKeys env ((trace st @ pre) @ [GetAvailableKeys]) a
             = Inr answered
           \<longrightarrow> (\<exists>args. more = [Sign args] \<and> sp_requiredKeys args = answered)"
      by blast
    have "\<exists>args post'. more @ post = Sign args # post' \<and> sp_requiredKeys args = answered"
      if "authorityProvider_getRequiredKeys env (trace st @ pre @ [GetAvailableKeys]) a
            = Inr answered" for answered
      using more that by auto
    with rest evs a show ?thesis
      by auto
  qed
  have signed: "\<exists>args. Sign args \<in> set ?log"
    if "sign cfg \<noteq> Some False" and "fst (transact env tx cfg st) = Inr res"
    using that by (rule transact_signed)
  from same every override authority signed show ?thesis
    by blast
qed

lemmas run_defs =
  transact_def transact_chainId_def chainIdSet_def transact_tapos_def taposFieldMissing_def
  hasRequiredTaposFields_def transact_finish_def transact_sign_def generateTapos_def
  taposBlockNumber_def js_le_def flag_def tryGetBlockHeaderState_def getTransactionAbis_def
  getCachedAbi_def getAbi_def getContract_def rawAbiToJson_def serializeActions_def
  serializeTransaction_def serializeContextFreeData_def pushSignedTransaction_def
  pushCompressedSignedTransaction_def promise_all_def replay_def js_get_def
  await_def request_def resolve_def reject_def settle_def

text \<open>
  In the small world, an Api constructed with the key EOS7 does not ask the authority
  provider and signs with EOS7, whatever the configuration holds; one constructed
  without keys signs with EOS6, the key the authority provider answers.
\<close>

lemma demo_override_run:
  "issued (transact demo_env demo_tx behind_config) override_api
     = [GetInfo, GetBlockHeaderState (Some 97), GetBlock (Some 97), GetRawAbi ''eosio.token'']
       @ GetAvailableKeys
       # [Sign \<lparr>sp_chainId = Some ''cafe'', sp_requiredKeys = [''EOS7''],
                 sp_serializedTransaction = [1, 2, 3], sp_serializedContextFreeData = None,
                 sp_abis = [\<lparr>accountName = ''eosio.token'', abi = [3]\<rparr>]\<rparr>,
          PushTransaction \<lparr>signatures = [''SIG_K1''], push_compression = None,
                            serializedTransaction = [1, 2, 3],
                            serializedContextFreeData = None\<rparr>]"
  by (simp add: issued_def run_defs demo_defs override_api_def Let_def)

lemma demo_override_result:
  "fst (transact demo_env demo_tx behind_config override_api) = Inr (Pushed (JStr ''receipt''))"
  by (simp add: run_defs demo_defs override_api_def Let_def)

lemma demo_authority_run:
  "\<exists>a. issued (transact demo_env demo_tx behind_config) demo_api
     = [GetInfo, GetBlockHeaderState (Some 97), GetBlock (Some 97), GetRawAbi ''eosio.token'']
       @ GetAvailableKeys
       # [GetRequiredKeys a,
          Sign \<lparr>sp_chainId = Some ''cafe'', sp_requiredKeys = [''EOS6''],
                 sp_serializedTransaction = [1, 2, 3], sp_serializedContextFreeData = None,
                 sp_abis = [\<lparr>accountName = ''eosio.token'', abi = [3]\<rparr>]\<rparr>,
          PushTransaction \<lparr>signatures = [''SIG_K1''], push_compression = None,
                            serializedTransaction = [1, 2, 3],
                            serializedContextFreeData = None\<rparr>]"
  by (simp add: issued_def run_defs demo_defs Let_def)

theorem transact_ignores_config_requiredKeys_witness:
  "transact demo_env demo_tx (behind_config\<lparr>requiredKeys := Some [''EOS5'']\<rparr>)
     = transact demo_env demo_tx behind_config
   \<and> api_requiredKeys override_api = Some [''EOS7'']
   \<and> issued (transact demo_env demo_tx behind_config) override_api
       = [GetInfo, GetBlockHeaderState (Some 97), GetBlock (Some 97), GetRawAbi ''eosio.token'']
         @ GetAvailableKeys
         # [Sign \<lparr>sp_chainId = Some ''cafe'', sp_requiredKeys = [''EOS7''],
                   sp_serializedTransaction = [1, 2, 3], sp_serializedContextFreeData = None,
                   sp_abis = [\<lparr>accountName = ''eosio.token'', abi = [3]\<rparr>]\<rparr>,
            PushTransaction \<lparr>signatures = [''SIG_K1''], push_compression = None,
                              serializedTransaction = [1, 2, 3],
                              serializedContextFreeData = None\<rparr>]
   \<and> signatureProvider_getAvailableKeys demo_env
         (trace override_api
          @ [GetInfo, GetBlockHeaderState (Some 97), GetBlock (Some 97), GetRawAbi ''eosio.token''])
       = Inr [''EOS6'', ''EOS7'']
   \<and> (\<exists>args post.
         [Sign \<lparr>sp_chainId = Some ''cafe'', sp_requiredKeys = [''EOS7''],
                 sp_serializedTransaction = [1, 2, 3], sp_serializedContextFreeData = None,
                 sp_abis = [\<lparr>accountName = ''eosio.token'', abi = [3]\<rparr>]\<rparr>,
          PushTransaction \<lparr>signatures = [''SIG_K1''], push_compression = None,
                            serializedTransaction = [1, 2, 3],
                            serializedContextFreeData = None\<rparr>]
           = Sign args # post
         \<and> sp_requiredKeys args = [''EOS7''])
   \<and> signs_with demo_env (api_requiredKeys override_api)
         (issued (transact demo_env demo_tx behind_config) override_api)
   \<and> sign behind_config \<noteq> Some False
   \<and> fst (transact demo_env demo_tx behind_config override_api) = Inr (Pushed (JStr ''receipt''))
   \<and> (\<exists>args. Sign args \<in> set (issued (transact demo_env demo_tx behind_config) override_api))
   \<and> api_requiredKeys demo_api = None
   \<and> (\<exists>a. issued (transact demo_env demo_tx behind_config) demo_api
            = [GetInfo, GetBlockHeaderState (Some 97), GetBlock (Some 97),
               GetRawAbi ''eosio.token'']
              @ GetAvailableKeys
              # [GetRequiredKeys a,
                 Sign \<lparr>sp_chainId = Some ''cafe'', sp_requiredKeys = [''EOS6''],
                        sp_serializedTransaction = [1, 2, 3],
                        sp_serializedContextFreeData = None,
                        sp_abis = [\<lparr>accountName = ''eosio.token'', abi = [3]\<rparr>]\<rparr>,
                 PushTransaction \<lparr>signatures = [''SIG_K1''], push_compression = None,
                                   serializedTransaction = [1, 2, 3],
                                   serializedContextFreeData = None\<rparr>]
          \<and> availableKeys a = [''EOS6'', ''EOS7'']
          \<and> authorityProvider_getRequiredKeys demo_env
                (trace demo_api
                 @ [GetInfo, GetBlockHeaderState (Some 97), GetBlock (Some 97),
                    GetRawAbi ''eosio.token'']
                 @ [GetAvailableKeys]) a
              = Inr [''EOS6''])"
proof -
  let ?pre = "[GetInfo, GetBlockHeaderState (Some 97), GetBlock (Some 97),
               GetRawAbi ''eosio.token'']"
  let ?sign7 = "Sign \<lparr>sp_chainId = Some ''cafe'', sp_requiredKeys = [''EOS7''],
                   sp_serializedTransaction = [1, 2, 3], sp_serializedContextFreeData = None,
                   sp_abis = [\<lparr>accountName = ''eosio.token'', abi = [3]\<rparr>]\<rparr>"
  let ?sign6 = "Sign \<lparr>sp_chainId = Some ''cafe'', sp_requiredKeys = [''EOS6''],
                   sp_serializedTransaction = [1, 2, 3], sp_serializedContextFreeData = None,
                   sp_abis = [\<lparr>accountName = ''eosio.token'', abi = [3]\<rparr>]\<rparr>"
  let ?push = "PushTransaction \<lparr>signatures = [''SIG_K1''], push_compression = None,
                              serializedTransaction = [1, 2, 3],
                              serializedContextFreeData = None\<rparr>"
  have rk: "api_requiredKeys override_api = Some [''EOS7'']" "api_requiredKeys demo_api = None"
    by (simp_all add: override_api_def demo_api_def)
  have avail: "signatureProvider_getAvailableKeys demo_env tr = Inr [''EOS6'', ''EOS7'']" for tr
    by (simp add: demo_env_def)
  have on: "sign behind_config \<noteq> Some False"
    by (simp add: behind_config_def no_config_def)
  have with_override:
    "transact demo_env demo_tx (behind_config\<lparr>requiredKeys := Some [''EOS5'']\<rparr>)
       = transact demo_env demo_tx behind_config
     \<and> (\<exists>args post. [?sign7, ?push] = Sign args # post \<and> sp_requiredKeys args = [''EOS7''])
     \<and> signs_with demo_env (api_requiredKeys override_api)
         (issued (transact demo_env demo_tx behind_config) override_api)
     \<and> (\<exists>args. Sign args \<in> set (issued (transact demo_env demo_tx behind_config) override_api))"
    using transact_ignores_config_requiredKeys
      [where env = demo_env and tx = demo_tx and cfg = behind_config
         and keys = "Some [''EOS5'']" and st = override_api and override = "[''EOS7'']"
         and pre = ?pre and rest = "[?sign7, ?push]" and available = "[''EOS6'', ''EOS7'']"
         and res = "Pushed (JStr ''receipt'')"]
      rk(1) demo_override_run demo_override_result avail [of "trace override_api @ ?pre"] on
    by simp
  from demo_authority_run obtain a where
    log: "issued (transact demo_env demo_tx behind_config) demo_api
            = ?pre @ GetAvailableKeys # [GetRequiredKeys a, ?sign6, ?push]"
    by blast
  have answer: "authorityProvider_getRequiredKeys demo_env tr a = Inr (take 1 (availableKeys a))"
    for tr
    by (simp add: demo_env_def)
  have "api_requiredKeys demo_api = None
        \<and> issued (transact demo_env demo_tx behind_config) demo_api
            = ?pre @ GetAvailableKeys # [GetRequiredKeys a, ?sign6, ?push]
        \<and> signatureProvider_getAvailableKeys demo_env (trace demo_api @ ?pre)
            = Inr [''EOS6'', ''EOS7''] \<longrightarrow>
      (\<exists>a' post. [GetRequiredKeys a, ?sign6, ?push] = GetRequiredKeys a' # post
         \<and> availableKeys a' = [''EOS6'', ''EOS7'']
         \<and> (\<forall>answered.
               authorityProvider_getRequiredKeys demo_env
                 (trace demo_api @ ?pre @ [GetAvailableKeys]) a' = Inr answered \<longrightarrow>
               (\<exists>args post'. post = Sign args # post' \<and> sp_requiredKeys args = answered)))"
    using transact_ignores_config_requiredKeys
      [where env = demo_env and tx = demo_tx and cfg = behind_config
         and keys = "Some [''EOS5'']" and st = demo_api and override = "[]"
         and pre = ?pre and rest = "[GetRequiredKeys a, ?sign6, ?push]"
         and available = "[''EOS6'', ''EOS7'']" and res = "Pushed (JStr ''receipt'')"]
    by (elim conjE)
  with rk(2) log avail [of "trace demo_api @ ?pre"]
  obtain a' post where "[GetRequiredKeys a, ?sign6, ?push] = GetRequiredKeys a' # post"
    and "availableKeys a' = [''EOS6'', ''EOS7'']"
    by blast
  then have keys: "availableKeys a = [''EOS6'', ''EOS7'']"
    by simp
  with answer [of "trace demo_api @ ?pre @ [GetAvailableKeys]"]
  have without_override:
    "availableKeys a = [''EOS6'', ''EOS7'']
     \<and> authorityProvider_getRequiredKeys demo_env (trace demo_api @ ?pre @ [GetAvailableKeys]) a
         = Inr [''EOS6'']"
    by simp
  from without_override log
  have authority:
    "\<exists>a. issued (transact demo_env demo_tx behind_config) demo_api
            = ?pre @ GetAvailableKeys # [GetRequiredKeys a, ?sign6, ?push]
          \<and> availableKeys a = [''EOS6'', ''EOS7'']
          \<and> authorityProvider_getRequiredKeys demo_env
                (trace demo_api @ ?pre @ [GetAvailableKeys]) a
              = Inr [''EOS6'']"
    by blast
  from with_override have "transact demo_env demo_tx (behind_config\<lparr>requiredKeys := Some [''EOS5'']\<rparr>)
       = transact demo_env demo_tx behind_config"
    and "\<exists>args post. [?sign7, ?push] = Sign args # post \<and> sp_requiredKeys args = [''EOS7'']"
    and "signs_with demo_env (api_requiredKeys override_api)
           (issued (transact demo_env demo_tx behind_config) override_api)"
    and "\<exists>args. Sign args \<in> set (issued (transact demo_env demo_tx behind_config) override_api)"
    by simp_all
  with rk demo_override_run demo_override_result avail [of "trace override_api @ ?pre"] on
    authority
  show ?thesis
    by (intro conjI)
qed

section \<open>Proofs: a \<open>ref_block_num\<close> of 0\<close>

lemma transact_finish_extends:
  fixes env :: "('types, 'ty) env"
  shows "prefix (trace sa) (trace (snd (transact_finish env tx cfg sa)))"
proof -
  have "issues (api_requiredKeys sa) (\<lambda>evs. True) (transact_finish env tx cfg)"
    by (intro issues_transact_finish issues_weaken [OF issues_transact_sign])
      (simp_all add: closed_def)
  then obtain evs where "trace (snd (transact_finish env tx cfg sa)) = trace sa @ evs"
    by (rule issuesD) simp
  then show ?thesis
    by simp
qed

lemma zero_ref_block_num:
  assumes "props tx ''ref_block_num'' = Some (JNum 0)"
    and "truthy (js_get (props tx) ''expiration'')"
    and "is_number (js_get (props tx) ''ref_block_prefix'')"
  shows "taposFieldMissing tx" and "hasRequiredTaposFields tx"
  using assms by (simp_all add: taposFieldMissing_def hasRequiredTaposFields_def js_get_def)

lemma transact_chainId_info:
  assumes "rpc_get_info env (trace st) = Inr i"
  obtains info st1 where "transact_chainId env st = (Inr info, st1)"
    and "info = Some i \<and> trace st1 = trace st @ [GetInfo] \<or> info = None \<and> st1 = st"
  using assms
  by (cases "chainIdSet st")
    (auto simp: transact_chainId_def resolve_def await_def request_def)

lemma trace_tapos_check:
  "trace (snd ((if \<not> hasRequiredTaposFields tx'
                then reject (Error ''Required configuration or TAPOS fields are not present'')
                else resolve tx') sa)) = trace sa"
  by (simp add: reject_def resolve_def)

lemma transact_runs_generateTapos:
  fixes env :: "('types, 'ty) env"
  assumes "taposFieldMissing tx"
    and "\<not> (blocksBehind cfg \<noteq> None \<and> flag (useLastIrreversible cfg))"
    and "blocksBehind cfg \<noteq> None \<or> flag (useLastIrreversible cfg)"
    and "expireSeconds cfg = Some es" "es \<noteq> 0"
  shows "transact env tx cfg
         = await (transact_chainId env)
             (\<lambda>info. await
                (await (generateTapos env info tx (blocksBehind cfg) (useLastIrreversible cfg) es)
                   (\<lambda>tx'. if \<not> hasRequiredTaposFields tx'
                          then reject (Error ''Required configuration or TAPOS fields are not present'')
                          else resolve tx'))
                (\<lambda>tx'. transact_finish env tx' cfg))"
  using assms by (auto simp: transact_def transact_tapos_def)

lemma transact_fetches_block:
  fixes env :: "('types, 'ty) env"
  assumes missing: "taposFieldMissing tx"
    and one: "\<not> (blocksBehind cfg \<noteq> None \<and> flag (useLastIrreversible cfg))"
    and strategy: "blocksBehind cfg \<noteq> None \<or> flag (useLastIrreversible cfg)"
    and es: "expireSeconds cfg = Some es" "es \<noteq> 0"
    and info: "rpc_get_info env (trace st) = Inr i"
  shows "prefix
           (trace st @
              [GetInfo,
               (let n = taposBlockNumber i (blocksBehind cfg) (useLastIrreversible cfg)
                in if js_le n (last_irreversible_block_num i) then GetBlock n
                   else GetBlockHeaderState n)])
           (trace (snd (transact env tx cfg st)))"
proof -
  let ?bb = "blocksBehind cfg" and ?uli = "useLastIrreversible cfg"
  let ?n = "taposBlockNumber i ?bb ?uli"
  let ?b = "if js_le ?n (last_irreversible_block_num i) then GetBlock ?n else GetBlockHeaderState ?n"
  from info obtain info' st1 where
    chain: "transact_chainId env st = (Inr info', st1)"
    and which: "info' = Some i \<and> trace st1 = trace st @ [GetInfo] \<or> info' = None \<and> st1 = st"
    by (rule transact_chainId_info)
  from which info have avail: "info' = Some i \<or> (info' = None \<and> rpc_get_info env (trace st1) = Inr i)"
    by auto
  from which have start: "trace st1 @ info_trace info' = trace st @ [GetInfo]"
    by (auto simp: info_trace_def)
  let ?gen = "generateTapos env info' tx ?bb ?uli es"
  have tapos: "transact_tapos env info' tx cfg
        = await ?gen (\<lambda>tx'. if \<not> hasRequiredTaposFields tx'
             then reject (Error ''Required configuration or TAPOS fields are not present'')
             else resolve tx')"
    using missing strategy es by (simp add: transact_tapos_def)
  have "trace (snd (transact_tapos env info' tx cfg st1)) = trace (snd (?gen st1))"
    unfolding tapos by (rule trace_await_pure) (rule trace_tapos_check)
  also from generateTapos_requests
    [OF avail, where tx = tx and uli = ?uli and bb = ?bb and es = es]
  have "\<exists>more. trace (snd (?gen st1)) = (trace st @ [GetInfo]) @ ?b # more"
    unfolding Let_def taposBlockNumber_def [symmetric] start
    by (auto split: sum.splits)
  finally obtain more where
    t2: "trace (snd (transact_tapos env info' tx cfg st1)) = (trace st @ [GetInfo]) @ ?b # more"
    by blast
  from one chain have "transact env tx cfg st
        = await (transact_tapos env info' tx cfg) (\<lambda>tx'. transact_finish env tx' cfg) st1"
    by (auto simp: transact_def await_def)
  moreover have "prefix (trace (snd (transact_tapos env info' tx cfg st1)))
        (trace (snd (await (transact_tapos env info' tx cfg) (\<lambda>tx'. transact_finish env tx' cfg) st1)))"
    by (rule prefix_await) (rule transact_finish_extends)
  ultimately have "prefix ((trace st @ [GetInfo]) @ ?b # more) (trace (snd (transact env tx cfg st)))"
    using t2 by simp
  then have "prefix ((trace st @ [GetInfo]) @ [?b]) (trace (snd (transact env tx cfg st)))"
    by (auto simp: prefix_def)
  then show ?thesis
    by (simp add: Let_def)
qed

lemma transact_skips_tapos:
  fixes env :: "('types, 'ty) env"
  assumes missing: "taposFieldMissing tx" and has: "hasRequiredTaposFields tx"
    and one: "\<not> (blocksBehind cfg \<noteq> None \<and> flag (useLastIrreversible cfg))"
    and none: "\<not> ((blocksBehind cfg \<noteq> None \<or> flag (useLastIrreversible cfg))
                  \<and> expireSeconds cfg \<noteq> None \<and> expireSeconds cfg \<noteq> Some 0)"
  shows "transact env tx cfg = await (transact_chainId env) (\<lambda>info. transact_finish env tx cfg)"
proof -
  have "(case expireSeconds cfg of
           None \<Rightarrow> resolve tx
         | Some es \<Rightarrow>
             if (blocksBehind cfg \<noteq> None \<or> flag (useLastIrreversible cfg)) \<and> es \<noteq> 0
             then generateTapos env info tx (blocksBehind cfg) (useLastIrreversible cfg) es
             else resolve tx) = (resolve tx :: (transaction, ('types, 'ty) Api) async)" for info
    using none by (cases "expireSeconds cfg") auto
  with missing has have "transact_tapos env info tx cfg = resolve tx" for info
    by (simp add: transact_tapos_def)
  with one show ?thesis
    by (auto simp: transact_def)
qed

text \<open>
  C10. The test for a missing TAPoS field is one of truth, the final test one of type.
  A transaction with \<open>ref_block_num\<close> 0, a truthy \<open>expiration\<close> and a numeric
  \<open>ref_block_prefix\<close> counts as having a field missing and passes
  \<open>hasRequiredTaposFields\<close> all the same. With \<open>blocksBehind\<close> or
  \<open>useLastIrreversible\<close> (not both) and \<open>expireSeconds\<close> configured, \<open>transact\<close> runs
  \<open>generateTapos\<close> on it, and once \<open>get_info\<close> is answered the reference block is
  fetched. With no such configuration \<open>transact\<close> goes on to the ABIs with the
  transaction as it is: no configuration error is raised.
\<close>

theorem transact_zero_ref_block_num:
  fixes env :: "('types, 'ty) env"
  assumes "props tx ''ref_block_num'' = Some (JNum 0)"
    and "truthy (js_get (props tx) ''expiration'')"
    and "is_number (js_get (props tx) ''ref_block_prefix'')"
    and "\<not> (blocksBehind cfg \<noteq> None \<and> flag (useLastIrreversible cfg))"
  shows "taposFieldMissing tx \<and> hasRequiredTaposFields tx
         \<and> ((blocksBehind cfg \<noteq> None \<or> flag (useLastIrreversible cfg))
              \<and> expireSeconds cfg = Some es \<and> es \<noteq> 0
            \<longrightarrow> transact env tx cfg
                  = await (transact_chainId env)
                      (\<lambda>info. await
                         (await (generateTapos env info tx (blocksBehind cfg)
                                   (useLastIrreversible cfg) es)
                            (\<lambda>tx'. if \<not> hasRequiredTaposFields tx'
                                   then reject (Error
                                     ''Required configuration or TAPOS fields are not present'')
                                   else resolve tx'))
                         (\<lambda>tx'. transact_finish env tx' cfg)))
         \<and> ((blocksBehind cfg \<noteq> None \<or> flag (useLastIrreversible cfg))
              \<and> expireSeconds cfg = Some es \<and> es \<noteq> 0 \<and> rpc_get_info env (trace st) = Inr i
            \<longrightarrow> prefix
                  (trace st @
                     [GetInfo,
                      (let n = taposBlockNumber i (blocksBehind cfg) (useLastIrreversible cfg)
                       in if js_le n (last_irreversible_block_num i) then GetBlock n
                          else GetBlockHeaderState n)])
                  (trace (snd (transact env tx cfg st))))
         \<and> (\<not> ((blocksBehind cfg \<noteq> None \<or> flag (useLastIrreversible cfg))
                  \<and> expireSeconds cfg \<noteq> None \<and> expireSeconds cfg \<noteq> Some 0)
            \<longrightarrow> transact env tx cfg
                  = await (transact_chainId env) (\<lambda>info. transact_finish env tx cfg))"
proof -
  from assms(1-3) have m: "taposFieldMissing tx" and h: "hasRequiredTaposFields tx"
    by (rule zero_ref_block_num)+
  from m h
    transact_runs_generateTapos [OF m assms(4), where es = es and env = env]
    transact_fetches_block [OF m assms(4), where es = es and env = env and st = st and i = i]
    transact_skips_tapos [OF m h assms(4), where env = env]
  show ?thesis
    by blast
qed

lemma zero_tx_fields:
  "props zero_tx ''ref_block_num'' = Some (JNum 0)"
  "truthy (js_get (props zero_tx) ''expiration'')"
  "is_number (js_get (props zero_tx) ''ref_block_prefix'')"
  by (simp_all add: zero_tx_def js_get_def)

theorem transact_zero_ref_block_num_witness:
  "taposFieldMissing zero_tx \<and> hasRequiredTaposFields zero_tx
   \<and> prefix [GetInfo, GetBlockHeaderState (Some 97)]
       (trace (snd (transact demo_env zero_tx behind_config demo_api)))
   \<and> transact demo_env zero_tx no_config
       = await (transact_chainId demo_env) (\<lambda>info. transact_finish demo_env zero_tx no_config)"
proof -
  have one: "\<not> (blocksBehind behind_config \<noteq> None \<and> flag (useLastIrreversible behind_config))"
    and none: "\<not> (blocksBehind no_config \<noteq> None \<and> flag (useLastIrreversible no_config))"
    by (simp_all add: behind_config_def no_config_def flag_def)
  note gen = transact_zero_ref_block_num
    [OF zero_tx_fields one, where es = 30 and env = demo_env and st = demo_api and i = demo_info]
  note skip = transact_zero_ref_block_num
    [OF zero_tx_fields none, where es = 30 and env = demo_env and st = demo_api and i = demo_info]
  have configured: "(blocksBehind behind_config \<noteq> None \<or> flag (useLastIrreversible behind_config))
      \<and> expireSeconds behind_config = Some 30 \<and> (30::int) \<noteq> 0
      \<and> rpc_get_info demo_env (trace demo_api) = Inr demo_info"
    by (simp add: behind_config_def no_config_def demo_env_def)
  have unconfigured: "\<not> ((blocksBehind no_config \<noteq> None \<or> flag (useLastIrreversible no_config))
      \<and> expireSeconds no_config \<noteq> None \<and> expireSeconds no_config \<noteq> Some 0)"
    by (simp add: no_config_def)
  have start: "trace demo_api = []"
    by (simp add: demo_api_def)
  have block: "(let n = taposBlockNumber demo_info (blocksBehind behind_config)
                          (useLastIrreversible behind_config)
                in if js_le n (last_irreversible_block_num demo_info) then GetBlock n
                   else GetBlockHeaderState n) = GetBlockHeaderState (Some 97)"
    by (simp add: behind_config_def no_config_def demo_info_def taposBlockNumber_def flag_def
        js_le_def)
  from gen have "taposFieldMissing zero_tx" and "hasRequiredTaposFields zero_tx"
    by blast+
  moreover from gen configured
  have "prefix (trace demo_api @
                  [GetInfo,
                   (let n = taposBlockNumber demo_info (blocksBehind behind_config)
                              (useLastIrreversible behind_config)
                    in if js_le n (last_irreversible_block_num demo_info) then GetBlock n
                       else GetBlockHeaderState n)])
          (trace (snd (transact demo_env zero_tx behind_config demo_api)))"
    by blast
  then have "prefix [GetInfo, GetBlockHeaderState (Some 97)]
       (trace (snd (transact demo_env zero_tx behind_config demo_api)))"
    unfolding start block by simp
  moreover from skip unconfigured
  have "transact demo_env zero_tx no_config
       = await (transact_chainId demo_env) (\<lambda>info. transact_finish demo_env zero_tx no_config)"
    by blast
  ultimately show ?thesis
    by blast
qed

end
